theory Spec2Isabelle
  imports Main "HOL-Library.Multiset" "HOL-Library.Sublist"
begin

section \<open>The service-container builder (lib/Builder.js, lib/Definition.js)\<close>

text \<open>
  A shallow embedding of the container builder: file discovery
  (\<open>findServiceJsonFiles\<close>), the hierarchy sort (\<open>sortFilesByHierarchy\<close>), the
  import and namespace resolution (\<open>parseFile\<close>), the normalisation of a raw service
  record (\<open>buildDefinition\<close>), the entry point (\<open>buildContainer\<close>) and the
  \<open>Definition\<close> entity with its method-call operations.
\<close>

subsection \<open>JavaScript values\<close>

text \<open>
  Configuration data and the fields of a \<open>Definition\<close> are dynamically typed.
  \<open>JUndefined\<close> is the value of a property that is read but absent. Numbers are only
  carried around by the builder, never computed with, and are kept as integers.
\<close>

datatype jsval =
    JUndefined
  | JNull
  | JBool bool
  | JNum int
  | JStr string
  | JArr "jsval list"
  | JObj "(string \<times> jsval) list"

text \<open>ToBoolean, as used by \<open>if (x)\<close>, \<open>!x\<close> and \<open>x || y\<close>.\<close>

fun truthy :: "jsval \<Rightarrow> bool" where
  "truthy JUndefined = False"
| "truthy JNull = False"
| "truthy (JBool b) = b"
| "truthy (JNum n) = (n \<noteq> 0)"
| "truthy (JStr s) = (s \<noteq> [])"
| "truthy (JArr xs) = True"
| "truthy (JObj kvs) = True"

text \<open>\<open>typeof v === 'string'\<close>.\<close>

fun isString :: "jsval \<Rightarrow> bool" where
  "isString (JStr s) = True"
| "isString v = False"

text \<open>
  An object is the list of its own enumerable properties in \<open>for ... in\<close> order; its
  values are data, never functions. \<open>hasOwnKey\<close> is the presence of an own property;
  a property read gives \<open>undefined\<close> when the key is absent (none of the names the
  builder reads is inherited from \<open>Object.prototype\<close>).
\<close>

type_synonym jsobject = "(string \<times> jsval) list"

definition hasOwnKey :: "jsobject \<Rightarrow> string \<Rightarrow> bool" where
  "hasOwnKey obj k = (map_of obj k \<noteq> None)"

definition getProp :: "jsobject \<Rightarrow> string \<Rightarrow> jsval" where
  "getProp obj k = (case map_of obj k of None \<Rightarrow> JUndefined | Some v \<Rightarrow> v)"

text \<open>
  The hierarchy level of a file descriptor is a JavaScript number that the builder only
  increments and compares. A parameter that the caller leaves out is \<open>undefined\<close>,
  \<open>undefined + 1\<close> is \<open>NaN\<close>, \<open>NaN + 1\<close> is \<open>NaN\<close>, and \<open><\<close> is false as soon as
  one side is \<open>undefined\<close> or \<open>NaN\<close>.
\<close>

datatype jsnum = LUndefined | LNaN | LNum int

fun jsSucc :: "jsnum \<Rightarrow> jsnum" where
  "jsSucc (LNum n) = LNum (n + 1)"
| "jsSucc LUndefined = LNaN"
| "jsSucc LNaN = LNaN"

fun jsLess :: "jsnum \<Rightarrow> jsnum \<Rightarrow> bool" where
  "jsLess (LNum a) (LNum b) = (a < b)"
| "jsLess a b = False"

subsection \<open>Strings and the regular expressions of the builder\<close>

text \<open>\<open>s.indexOf(sub) === -1\<close> is the negation of \<open>sublist sub s\<close>.\<close>

definition indexOfIsMinus1 :: "string \<Rightarrow> string \<Rightarrow> bool" where
  "indexOfIsMinus1 s sub = (\<not> sublist sub s)"

text \<open>
  The three file patterns are \<open>new RegExp(src + "$")\<close>. For a source \<open>src\<close> of
  literal characters and dots, a dot matches any character but a line terminator and,
  with no anchor at the start, the pattern matches when the last \<open>length src\<close>
  characters of the subject match it. The two fixed patterns are of this kind. The third
  has \<open>env\<close> pasted into its source: it is of this kind when \<open>env\<close> is plain, that is
  has no metacharacter but the dot. With any other \<open>env\<close> the code compiles another
  regular expression or throws a \<open>SyntaxError\<close>; \<open>regexSuffixTest\<close> does not stand
  for the code then, and a statement that depends on the pattern of a truthy \<open>env\<close>
  assumes \<open>plainEnv\<close>.
\<close>

definition isMetacharacter :: "char \<Rightarrow> bool" where
  "isMetacharacter c = (c = CHR 0x5C \<or> c \<in> set ''^$*+?()[]{}|'')"

definition plainSource :: "string \<Rightarrow> bool" where
  "plainSource src = list_all (\<lambda>c. \<not> isMetacharacter c) src"

definition atomMatches :: "char \<Rightarrow> char \<Rightarrow> bool" where
  "atomMatches p c =
     (if p = CHR ''.'' then c \<noteq> CHR 0x0A \<and> c \<noteq> CHR 0x0D else p = c)"

definition regexSuffixTest :: "string \<Rightarrow> string \<Rightarrow> bool" where
  "regexSuffixTest src s =
     (length src \<le> length s \<and>
      list_all2 atomMatches src (drop (length s - length src) s))"

subsection \<open>Options, file descriptors and the file system\<close>

text \<open>
  \<open>env\<close> is documented as a string or \<open>false\<close>; it is \<open>undefined\<close> in an options
  object that leaves it out. \<open>ignoreNodeModulesDirectory\<close> is a boolean, or
  \<open>undefined\<close> (\<open>None\<close>) when left out.
\<close>

datatype envopt = EnvUndefined | EnvFalse | EnvStr string

fun envTruthy :: "envopt \<Rightarrow> bool" where
  "envTruthy (EnvStr s) = (s \<noteq> [])"
| "envTruthy e = False"

fun plainEnv :: "envopt \<Rightarrow> bool" where
  "plainEnv (EnvStr s) = plainSource s"
| "plainEnv e = True"

fun envString :: "envopt \<Rightarrow> string" where
  "envString (EnvStr s) = s"
| "envString EnvFalse = ''false''"
| "envString EnvUndefined = ''undefined''"

record options =
  env :: envopt
  ignoreNodeModulesDirectory :: "bool option"

text \<open>Truthiness of a flag that may be absent.\<close>

fun flagTruthy :: "bool option \<Rightarrow> bool" where
  "flagTruthy None = False"
| "flagTruthy (Some b) = b"

text \<open>The options a new \<open>Builder\<close> starts with.\<close>

definition defaultOptions :: options where
  "defaultOptions = \<lparr> env = EnvFalse, ignoreNodeModulesDirectory = Some True \<rparr>"

text \<open>
  A raw service record is an object; a configuration file has an optional namespace,
  imports, parameters and services. A field that is absent and a field that is empty are
  both iterated zero times by \<open>for ... in\<close>, so lists stand for both.
\<close>

record config =
  namespace :: "string option"
  importList :: "string list"
  parameters :: "(string \<times> jsval) list"
  services :: "(string \<times> jsobject) list"

text \<open>
  The descriptor of a file. Discovery sets \<open>isEnvFile\<close> and \<open>isParamFile\<close>; the
  descriptor that \<open>parseFile\<close> makes for an import has neither (\<open>None\<close>), nor a
  preloaded \<open>config\<close>.
\<close>

record fileinfo =
  file' :: string
  dir :: string
  level :: jsnum
  isEnvFile :: "bool option"
  isParamFile :: "bool option"
  preconfig :: "config option"

text \<open>
  The file system as \<open>readdirSync\<close> and \<open>statSync\<close> show it: a directory lists its
  entries in the order \<open>readdirSync\<close> returns them; an entry is a regular file, a
  directory, or something else (neither \<open>isFile()\<close> nor \<open>isDirectory()\<close>). Every
  listed directory can be read.
\<close>

datatype fsnode = FsFile | FsDir "(string \<times> fsnode) list" | FsOther

subsection \<open>Discovery: \<open>findServiceJsonFiles\<close>\<close>

definition classify :: "options \<Rightarrow> string \<Rightarrow> string \<Rightarrow> jsnum \<Rightarrow> fileinfo list" where
  "classify opts absolutePath filepath lvl =
     (if regexSuffixTest ''services.json'' filepath then
        [\<lparr> file' = filepath, dir = absolutePath, level = lvl,
           isEnvFile = Some False, isParamFile = Some False, preconfig = None \<rparr>]
      else if regexSuffixTest ''parameters.json'' filepath then
        [\<lparr> file' = filepath, dir = absolutePath, level = lvl,
           isEnvFile = Some False, isParamFile = Some True, preconfig = None \<rparr>]
      else if envTruthy (env opts) \<and>
              regexSuffixTest (''services_'' @ envString (env opts) @ ''.json'') filepath then
        [\<lparr> file' = filepath, dir = absolutePath, level = lvl,
           isEnvFile = Some True, isParamFile = Some False, preconfig = None \<rparr>]
      else [])"

text \<open>
  \<open>findServiceJsonFiles\<close> reads the entries of \<open>absolutePath\<close> and loops over them;
  \<open>findEntries\<close> is that loop, \<open>findEntry\<close> its body.
\<close>

fun findEntry :: "options \<Rightarrow> string \<Rightarrow> jsnum \<Rightarrow> string \<times> fsnode \<Rightarrow> fileinfo list"
  and findEntries :: "options \<Rightarrow> string \<Rightarrow> jsnum \<Rightarrow> (string \<times> fsnode) list \<Rightarrow> fileinfo list"
where
  "findEntry opts absolutePath lvl (name, FsDir sub) =
     (let filepath = absolutePath @ ''/'' @ name in
      if \<not> flagTruthy (ignoreNodeModulesDirectory opts) \<or>
         indexOfIsMinus1 filepath ''node_modules''
      then findEntries opts filepath (jsSucc lvl) sub
      else [])"
| "findEntry opts absolutePath lvl (name, FsFile) =
     classify opts absolutePath (absolutePath @ ''/'' @ name) lvl"
| "findEntry opts absolutePath lvl (name, FsOther) = []"
| "findEntries opts absolutePath lvl [] = []"
| "findEntries opts absolutePath lvl (e # es) =
     findEntry opts absolutePath lvl e @ findEntries opts absolutePath lvl es"

definition findServiceJsonFiles ::
  "options \<Rightarrow> (string \<times> fsnode) list \<Rightarrow> string \<Rightarrow> jsnum \<Rightarrow> fileinfo list" where
  "findServiceJsonFiles opts entries absolutePath lvl =
     findEntries opts absolutePath lvl entries"

subsection \<open>The host's \<open>Array.prototype.sort\<close>\<close>

text \<open>
  \<open>sortFilesByHierarchy\<close> hands its comparator to the array sort of the JavaScript
  engine, which is not code of this repository. The language standard converts the
  comparator's result to a number (\<open>true\<close> is 1, \<open>false\<close> is 0): a positive result
  asks for the first argument to go after the second, a negative one for it to go before,
  zero for no preference. The order is left to the implementation when the comparator is
  not consistent, so the sort is a parameter of the model. Two routines of Node's
  engine are given to run it on short arrays. \<open>legacyInsertionSort\<close> is the insertion
  sort that V8 applied up to Node 10, to arrays of at most ten elements only: a longer
  array went through a quicksort, which is not modelled, so the routine says nothing
  about Node beyond ten elements. \<open>binaryInsertionSort\<close> is the binary insertion sort
  with run detection that V8 applies since Node 11 to arrays of fewer than 64 elements.
\<close>

type_synonym 'a comparefn = "'a \<Rightarrow> 'a \<Rightarrow> int"

type_synonym 'a arraySort = "'a comparefn \<Rightarrow> 'a list \<Rightarrow> 'a list"

fun boolToNumber :: "bool \<Rightarrow> int" where
  "boolToNumber True = 1"
| "boolToNumber False = 0"

text \<open>
  Legacy insertion sort. The part already placed is kept reversed, nearest element first:
  \<open>element\<close> moves left past every \<open>tmp\<close> with \<open>comparefn(tmp, element) > 0\<close> and
  stops at the first other one.
\<close>

fun legacyInsert :: "'a comparefn \<Rightarrow> 'a \<Rightarrow> 'a list \<Rightarrow> 'a list" where
  "legacyInsert comparefn element [] = [element]"
| "legacyInsert comparefn element (tmp # earlier) =
     (if comparefn tmp element > 0 then tmp # legacyInsert comparefn element earlier
      else element # tmp # earlier)"

definition legacyInsertionSort :: "'a arraySort" where
  "legacyInsertionSort comparefn a =
     rev (foldl (\<lambda>placed element. legacyInsert comparefn element placed) [] a)"

text \<open>
  Binary insertion sort with run detection. \<open>countRun\<close> extends the initial run while
  the order of neighbours keeps its direction (\<open>comparefn(current, previous) < 0\<close> means
  descending); a descending run is reversed. \<open>binarySearch\<close> finds the place of
  \<open>pivot\<close> in the part \<open>a\<close> already placed, between \<open>left\<close> and \<open>right\<close>.
\<close>

fun countRun :: "'a comparefn \<Rightarrow> bool \<Rightarrow> 'a \<Rightarrow> 'a list \<Rightarrow> nat" where
  "countRun comparefn isDescending previous [] = 0"
| "countRun comparefn isDescending previous (current # rest) =
     (if isDescending = (comparefn current previous < 0)
      then Suc (countRun comparefn isDescending current rest)
      else 0)"

function binarySearch :: "'a comparefn \<Rightarrow> 'a \<Rightarrow> 'a list \<Rightarrow> nat \<Rightarrow> nat \<Rightarrow> nat" where
  "binarySearch comparefn pivot a left right =
     (if left < right then
        (let mid = left + (right - left) div 2 in
         if comparefn pivot (a ! mid) < 0
         then binarySearch comparefn pivot a left mid
         else binarySearch comparefn pivot a (mid + 1) right)
      else left)"
  by pat_completeness auto
termination
  by (relation "measure (\<lambda>(comparefn, pivot, a, left, right). right - left)") auto

declare binarySearch.simps [simp del]

definition binaryInsert :: "'a comparefn \<Rightarrow> 'a list \<Rightarrow> 'a \<Rightarrow> 'a list" where
  "binaryInsert comparefn placed pivot =
     (let left = binarySearch comparefn pivot placed 0 (length placed)
      in take left placed @ pivot # drop left placed)"

definition binaryInsertionSort :: "'a arraySort" where
  "binaryInsertionSort comparefn a =
     (case a of
        [] \<Rightarrow> []
      | [x] \<Rightarrow> [x]
      | low # second # rest \<Rightarrow>
          (let isDescending = (comparefn second low < 0);
               runLength = 2 + countRun comparefn isDescending second rest;
               run = (if isDescending then rev (take runLength a) else take runLength a)
           in foldl (binaryInsert comparefn) run (drop runLength a)))"

subsection \<open>The hierarchy sort: \<open>sortFilesByHierarchy\<close>\<close>

text \<open>The first loop distributes the files over three arrays, keeping their order.\<close>

fun distribute ::
  "fileinfo list \<Rightarrow> fileinfo list \<times> fileinfo list \<times> fileinfo list" where
  "distribute [] = ([], [], [])"
| "distribute (f # files) =
     (case distribute files of (envFiles, nonEnvFiles, parameterFiles) \<Rightarrow>
        if flagTruthy (isEnvFile f) then (f # envFiles, nonEnvFiles, parameterFiles)
        else if flagTruthy (isParamFile f) then (envFiles, nonEnvFiles, f # parameterFiles)
        else (envFiles, f # nonEnvFiles, parameterFiles))"

text \<open>The comparator returns a boolean.\<close>

definition sortFunc :: "fileinfo \<Rightarrow> fileinfo \<Rightarrow> bool" where
  "sortFunc a b = (if jsLess (level a) (level b) then True else False)"

definition sortFuncNumber :: "fileinfo comparefn" where
  "sortFuncNumber a b = boolToNumber (sortFunc a b)"

definition sortFilesByHierarchy :: "fileinfo arraySort \<Rightarrow> fileinfo list \<Rightarrow> fileinfo list" where
  "sortFilesByHierarchy hostSort files =
     (case distribute files of (envFiles, nonEnvFiles, parameterFiles) \<Rightarrow>
        hostSort sortFuncNumber nonEnvFiles @ hostSort sortFuncNumber envFiles @ parameterFiles)"

subsection \<open>The \<open>Definition\<close> entity (lib/Definition.js)\<close>

record Definition =
  defFile :: jsval
  defNamespace :: jsval
  rootDirectory :: jsval
  defClass :: jsval
  constructorMethod :: jsval
  factoryClass :: jsval
  arguments :: jsval
  calls :: jsval
  properties :: jsval
  tags :: jsval
  isSingleton :: jsval
  isObject :: jsval
  isFunction :: jsval
  scope :: jsval
  isPublic :: jsval
  isSynthetic :: jsval
  isAbstract :: jsval
  configurator :: jsval

text \<open>The constructor.\<close>

definition newDefinition :: Definition where
  "newDefinition =
     \<lparr> defFile = JNull, defNamespace = JNull, rootDirectory = JNull, defClass = JNull,
       constructorMethod = JNull, factoryClass = JNull,
       arguments = JArr [], calls = JArr [], properties = JObj [],
       tags = JArr [], isSingleton = JBool False, isObject = JBool False,
       isFunction = JBool False,
       scope = JNull, isPublic = JBool True, isSynthetic = JBool False,
       isAbstract = JBool False, configurator = JNull \<rparr>"

text \<open>
  What the code throws: the string thrown by \<open>addMethodCall\<close> (\<open>InvalidArgument\<close>), the
  engine's \<open>TypeError\<close> for a property read on \<open>undefined\<close> or \<open>null\<close> and for a call
  of something that is no function, the failure of \<open>require\<close> (\<open>LoadError\<close>) and of
  \<open>readdirSync\<close> (\<open>DiscoveryError\<close>), and the engine's error when the call stack is
  exhausted.
\<close>

datatype error =
    InvalidArgument
  | TypeError
  | LoadError string
  | DiscoveryError string
  | StackExhausted

definition addMethodCall :: "Definition \<Rightarrow> jsval \<Rightarrow> jsval \<Rightarrow> error + Definition" where
  "addMethodCall d method args =
     (if \<not> truthy method \<or> \<not> isString method then Inl InvalidArgument
      else case calls d of
             JArr cs \<Rightarrow> Inr (d\<lparr> calls := JArr (cs @ [JArr [method, args]]) \<rparr>)
           | _ \<Rightarrow> Inl TypeError)"

text \<open>\<open>v[i]\<close> for the indices 0 and 1 that \<open>setMethodCalls\<close> reads.\<close>

fun jsIndex :: "jsval \<Rightarrow> nat \<Rightarrow> error + jsval" where
  "jsIndex JUndefined i = Inl TypeError"
| "jsIndex JNull i = Inl TypeError"
| "jsIndex (JArr xs) i = Inr (if i < length xs then xs ! i else JUndefined)"
| "jsIndex (JStr s) i = Inr (if i < length s then JStr [s ! i] else JUndefined)"
| "jsIndex (JObj kvs) i = Inr (getProp kvs (if i = 0 then ''0'' else ''1''))"
| "jsIndex (JBool b) i = Inr JUndefined"
| "jsIndex (JNum n) i = Inr JUndefined"

text \<open>
  \<open>setMethodCalls\<close> changes the definition in place, call by call: the result is the
  definition as the loop leaves it and the error that ended it, if any.
\<close>

fun setMethodCalls :: "Definition \<Rightarrow> jsval list \<Rightarrow> Definition \<times> error option" where
  "setMethodCalls d [] = (d, None)"
| "setMethodCalls d (c # cs) =
     (case jsIndex c 0 of
        Inl e \<Rightarrow> (d, Some e)
      | Inr method \<Rightarrow>
          (case jsIndex c 1 of
             Inl e \<Rightarrow> (d, Some e)
           | Inr args \<Rightarrow>
               (case addMethodCall d method args of
                  Inl e \<Rightarrow> (d, Some e)
                | Inr d' \<Rightarrow> setMethodCalls d' cs)))"

subsection \<open>Normalisation: \<open>buildDefinition\<close>\<close>

text \<open>
  \<open>config.hasOwnProperty(k)\<close> is a call of the method the record inherits from
  \<open>Object.prototype\<close>. A record that has an own property named \<open>hasOwnProperty\<close>
  hides the method behind a value that is no function, and the call throws a
  \<open>TypeError\<close>.
\<close>

definition hasOwnProperty :: "jsobject \<Rightarrow> string \<Rightarrow> error + bool" where
  "hasOwnProperty obj k =
     (if hasOwnKey obj ''hasOwnProperty'' then Inl TypeError else Inr (hasOwnKey obj k))"

text \<open>
  \<open>buildDefinition\<close> fills a new definition field by field. The only step that can
  throw is the call of \<open>hasOwnProperty\<close>; \<open>builtDefinition\<close> is the definition it
  returns, given the answer of that call.
\<close>

definition builtDefinition :: "jsobject \<Rightarrow> string \<Rightarrow> string \<Rightarrow> bool \<Rightarrow> Definition" where
  "builtDefinition cfg rootDir ns hasIsSingleton =
     newDefinition
       \<lparr> defFile := getProp cfg ''class'',
         rootDirectory := JStr rootDir,
         constructorMethod := getProp cfg ''constructorMethod'',
         arguments := getProp cfg ''arguments'',
         calls := getProp cfg ''calls'',
         properties := getProp cfg ''properties'',
         isObject := getProp cfg ''isObject'',
         isFunction := getProp cfg ''isFunction'',
         isSingleton :=
           (if hasIsSingleton then getProp cfg ''isSingleton'' else JBool True),
         tags := (if truthy (getProp cfg ''tags'') then getProp cfg ''tags'' else JArr []),
         defNamespace := JStr ns \<rparr>"

definition buildDefinition :: "jsobject \<Rightarrow> string \<Rightarrow> string \<Rightarrow> error + Definition" where
  "buildDefinition cfg rootDir ns =
     (case hasOwnProperty cfg ''isSingleton'' of
        Inl e \<Rightarrow> Inl e
      | Inr hasIsSingleton \<Rightarrow> Inr (builtDefinition cfg rootDir ns hasIsSingleton))"

subsection \<open>Import and namespace resolution: \<open>parseFile\<close>\<close>

text \<open>The calls the builder makes on the container, in the order it makes them.\<close>

datatype sinkCall = SetParameter string jsval | Set string Definition

text \<open>
  The path of an import: \<open>file.replace(/^\.\.\//, './../')\<close>, then
  \<open>fileinfo.dir + file.replace('./', '/')\<close> (a string pattern: the first occurrence
  only), and the directory \<open>file.replace(/\/[^/]+\.json$/, '')\<close>: the regular expression
  matches from a slash that is followed, up to the end, by one or more characters other
  than a slash and then \<open>.json\<close>.
\<close>

definition replaceLeadingDotDot :: "string \<Rightarrow> string" where
  "replaceLeadingDotDot f = (if prefix ''../'' f then ''./../'' @ drop 3 f else f)"

fun replaceFirstDotSlash :: "string \<Rightarrow> string" where
  "replaceFirstDotSlash (c # d # cs) =
     (if c = CHR ''.'' \<and> d = CHR ''/'' then CHR ''/'' # cs
      else c # replaceFirstDotSlash (d # cs))"
| "replaceFirstDotSlash cs = cs"

definition isJsonFileName :: "string \<Rightarrow> bool" where
  "isJsonFileName cs = (CHR ''/'' \<notin> set cs \<and> 5 < length cs \<and> suffix ''.json'' cs)"

fun stripJsonFile :: "string \<Rightarrow> string" where
  "stripJsonFile [] = []"
| "stripJsonFile (c # cs) =
     (if c = CHR ''/'' \<and> isJsonFileName cs then [] else c # stripJsonFile cs)"

definition importDescriptor :: "fileinfo \<Rightarrow> string \<Rightarrow> fileinfo" where
  "importDescriptor fileinfo imp =
     (let f = dir fileinfo @ replaceFirstDotSlash (replaceLeadingDotDot imp);
          path = stripJsonFile f
      in \<lparr> file' = f, dir = path, level = level fileinfo,
           isEnvFile = None, isParamFile = None, preconfig = None \<rparr>)"

definition effectiveNamespace :: "string \<Rightarrow> config \<Rightarrow> string" where
  "effectiveNamespace ns cfg =
     (case namespace cfg of
        None \<Rightarrow> ns
      | Some n \<Rightarrow> if n \<noteq> [] then (if ns \<noteq> [] then ns @ ''.'' @ n else n) else ns)"

definition modifiedNs :: "string \<Rightarrow> string" where
  "modifiedNs ns = (if ns \<noteq> [] then ns @ ''.'' else [])"

definition ownParameters :: "string \<Rightarrow> config \<Rightarrow> sinkCall list" where
  "ownParameters ns cfg =
     map (\<lambda>(i, v). SetParameter (modifiedNs ns @ i) v) (parameters cfg)"

text \<open>
  The loop over the file's own services: \<open>buildDefinition\<close> is evaluated before
  \<open>container.set\<close> is called, so a record for which it throws ends the loop with the
  calls made for the records before it.
\<close>

fun setServices ::
  "string \<Rightarrow> string \<Rightarrow> (string \<times> jsobject) list \<Rightarrow> sinkCall list \<times> error option" where
  "setServices rootDir ns [] = ([], None)"
| "setServices rootDir ns ((i, raw) # rest) =
     (case buildDefinition raw rootDir ns of
        Inl e \<Rightarrow> ([], Some e)
      | Inr d \<Rightarrow>
          (case setServices rootDir ns rest of
             (cs, err) \<Rightarrow> (Set (modifiedNs ns @ i) d # cs, err)))"

definition ownServices :: "fileinfo \<Rightarrow> string \<Rightarrow> config \<Rightarrow> sinkCall list \<times> error option" where
  "ownServices fileinfo ns cfg =
     (if \<not> flagTruthy (isParamFile fileinfo)
      then setServices (dir fileinfo) ns (services cfg)
      else ([], None))"

text \<open>
  The configuration of a file: the one the descriptor carries, or else what \<open>require\<close>
  loads from its path (\<open>None\<close> where \<open>require\<close> throws).
\<close>

definition getConfig :: "(string \<Rightarrow> config option) \<Rightarrow> fileinfo \<Rightarrow> config option" where
  "getConfig req fileinfo =
     (case preconfig fileinfo of Some c \<Rightarrow> Some c | None \<Rightarrow> req (file' fileinfo))"

text \<open>
  \<open>parseFile\<close> calls itself for every import, with no check for a cycle; the engine
  ends a recursion that is too deep with an error. The first argument after the loader is
  the number of nested calls the stack still takes. The result is the list of calls made
  on the container and the error that ended the resolution, if any. An absent namespace
  argument is the empty string (\<open>namespace = namespace || ''\<close>).
\<close>

fun parseFile ::
    "(string \<Rightarrow> config option) \<Rightarrow> nat \<Rightarrow> fileinfo \<Rightarrow> string \<Rightarrow> sinkCall list \<times> error option"
  and parseImports ::
    "(string \<Rightarrow> config option) \<Rightarrow> nat \<Rightarrow> fileinfo \<Rightarrow> string \<Rightarrow> string list
       \<Rightarrow> sinkCall list \<times> error option"
where
  "parseFile req 0 fileinfo ns = ([], Some StackExhausted)"
| "parseFile req (Suc stack) fileinfo ns =
     (case getConfig req fileinfo of
        None \<Rightarrow> ([], Some (LoadError (file' fileinfo)))
      | Some cfg \<Rightarrow>
          (let ns' = effectiveNamespace ns cfg in
           case parseImports req stack fileinfo ns' (importList cfg) of
             (imported, Some e) \<Rightarrow> (imported, Some e)
           | (imported, None) \<Rightarrow>
               (case ownServices fileinfo ns' cfg of
                  (sets, err) \<Rightarrow> (imported @ ownParameters ns' cfg @ sets, err))))"
| "parseImports req stack fileinfo ns [] = ([], None)"
| "parseImports req stack fileinfo ns (imp # rest) =
     (case parseFile req stack (importDescriptor fileinfo imp) ns of
        (first, Some e) \<Rightarrow> (first, Some e)
      | (first, None) \<Rightarrow>
          (case parseImports req stack fileinfo ns rest of
             (others, err) \<Rightarrow> (first @ others, err)))"

text \<open>The loop of \<open>buildContainer\<close> over the sorted files.\<close>

fun parseFiles ::
  "(string \<Rightarrow> config option) \<Rightarrow> nat \<Rightarrow> fileinfo list \<Rightarrow> sinkCall list \<times> error option" where
  "parseFiles req stack [] = ([], None)"
| "parseFiles req stack (f # files) =
     (case parseFile req stack f [] of
        (first, Some e) \<Rightarrow> (first, Some e)
      | (first, None) \<Rightarrow>
          (case parseFiles req stack files of
             (others, err) \<Rightarrow> (first @ others, err)))"

subsection \<open>The container\<close>

text \<open>
  Modelled from the spec: the container (lib/Container.js) is the sink of the builder;
  it accepts \<open>setParameter(name, value)\<close> and \<open>set(name, definition)\<close>, and a later
  call for a name overwrites an earlier one.
\<close>

record container =
  containerRoot :: string
  containerParameters :: "string \<rightharpoonup> jsval"
  containerDefinitions :: "string \<rightharpoonup> Definition"

definition makeEmptyContainer :: "string \<Rightarrow> container" where
  "makeEmptyContainer rootdirectory =
     \<lparr> containerRoot = rootdirectory, containerParameters = Map.empty,
       containerDefinitions = Map.empty \<rparr>"

fun applyCall :: "container \<Rightarrow> sinkCall \<Rightarrow> container" where
  "applyCall c (SetParameter name v) =
     c\<lparr> containerParameters := (containerParameters c)(name \<mapsto> v) \<rparr>"
| "applyCall c (Set name d) =
     c\<lparr> containerDefinitions := (containerDefinitions c)(name \<mapsto> d) \<rparr>"

definition runSink :: "sinkCall list \<Rightarrow> container \<Rightarrow> container" where
  "runSink cs c = foldl applyCall c cs"

subsection \<open>The builder and \<open>buildContainer\<close>\<close>

text \<open>
  A \<open>Builder\<close> keeps its options and the collaborators it was given: the file system
  (a directory tree for every path that can be listed) and the loader \<open>require\<close>
  (\<open>None\<close> where it throws). The host gives the array sort and the depth of its stack.
\<close>

record Builder =
  options :: options
  fs :: "string \<Rightarrow> fsnode"
  require :: "string \<Rightarrow> config option"

definition newBuilder :: "(string \<Rightarrow> fsnode) \<Rightarrow> (string \<Rightarrow> config option) \<Rightarrow> Builder" where
  "newBuilder fsys req = \<lparr> options = defaultOptions, fs = fsys, require = req \<rparr>"

record host =
  hostSort :: "fileinfo arraySort"
  stackLimit :: nat

text \<open>
  \<open>this.options = options || this.options\<close>: an options argument that is left out is
  \<open>None\<close>.
\<close>

definition setOptions :: "Builder \<Rightarrow> options option \<Rightarrow> Builder" where
  "setOptions b opts = b\<lparr> options := (case opts of Some p \<Rightarrow> p | None \<Rightarrow> options b) \<rparr>"

text \<open>
  The files \<open>buildContainer\<close> finds: it calls \<open>findServiceJsonFiles(rootdirectory)\<close>
  with one argument, so \<open>level\<close> is \<open>undefined\<close> in that call.
\<close>

definition discovered :: "Builder \<Rightarrow> string \<Rightarrow> error + fileinfo list" where
  "discovered b rootdirectory =
     (case fs b rootdirectory of
        FsDir entries \<Rightarrow>
          Inr (findServiceJsonFiles (options b) entries rootdirectory LUndefined)
      | _ \<Rightarrow> Inl (DiscoveryError rootdirectory))"

text \<open>The calls on the container that one build makes, in order.\<close>

definition buildCalls :: "host \<Rightarrow> Builder \<Rightarrow> string \<Rightarrow> error + sinkCall list \<times> error option" where
  "buildCalls h b rootdirectory =
     (case discovered b rootdirectory of
        Inl e \<Rightarrow> Inl e
      | Inr files \<Rightarrow>
          Inr (parseFiles (require b) (stackLimit h) (sortFilesByHierarchy (hostSort h) files)))"

text \<open>
  \<open>buildContainer\<close> returns the builder as the call leaves it and either the container
  or the error that ended the build.
\<close>

definition buildContainer ::
  "host \<Rightarrow> Builder \<Rightarrow> string \<Rightarrow> options option \<Rightarrow> Builder \<times> (error + container)" where
  "buildContainer h b rootdirectory opts =
     (let b' = setOptions b opts;
          cont = makeEmptyContainer rootdirectory
      in case buildCalls h b' rootdirectory of
           Inl e \<Rightarrow> (b', Inl e)
         | Inr (cs, Some e) \<Rightarrow> (b', Inl e)
         | Inr (cs, None) \<Rightarrow> (b', Inr (runSink cs cont)))"

subsection \<open>Notions used in the statements\<close>

text \<open>
  An element \<open>c\<close> of the array given to \<open>setMethodCalls\<close> is accepted when \<open>c[0]\<close>
  and \<open>c[1]\<close> can be read and \<open>c[0]\<close> is a non-empty string; the entry pushed for it is
  the array \<open>[c[0], c[1]]\<close>.
\<close>

definition acceptsCall :: "jsval \<Rightarrow> bool" where
  "acceptsCall c =
     (case jsIndex c 0 of
        Inl e \<Rightarrow> False
      | Inr method \<Rightarrow>
          (case jsIndex c 1 of
             Inl e \<Rightarrow> False
           | Inr args \<Rightarrow> truthy method \<and> isString method))"

definition pushedEntry :: "jsval \<Rightarrow> jsval" where
  "pushedEntry c =
     (case jsIndex c 0 of
        Inl e \<Rightarrow> JUndefined
      | Inr method \<Rightarrow>
          (case jsIndex c 1 of
             Inl e \<Rightarrow> JUndefined
           | Inr args \<Rightarrow> JArr [method, args]))"

text \<open>The calls of \<open>set(name, definition)\<close> among the calls on the container.\<close>

fun isSet :: "sinkCall \<Rightarrow> bool" where
  "isSet (Set name d) = True"
| "isSet (SetParameter name v) = False"

text \<open>
  The regular files of a directory tree, each with its directory and its path, in the
  order of the listings. \<open>enter\<close> says, from the path of a subdirectory, whether the
  walk goes into it.
\<close>

fun treeFile :: "(string \<Rightarrow> bool) \<Rightarrow> string \<Rightarrow> string \<times> fsnode \<Rightarrow> (string \<times> string) list"
  and treeFiles :: "(string \<Rightarrow> bool) \<Rightarrow> string \<Rightarrow> (string \<times> fsnode) list \<Rightarrow> (string \<times> string) list"
where
  "treeFile enter p (name, FsDir sub) =
     (if enter (p @ ''/'' @ name) then treeFiles enter (p @ ''/'' @ name) sub else [])"
| "treeFile enter p (name, FsFile) = [(p, p @ ''/'' @ name)]"
| "treeFile enter p (name, FsOther) = []"
| "treeFiles enter p [] = []"
| "treeFiles enter p (e # es) = treeFile enter p e @ treeFiles enter p es"

text \<open>A path that one of the file patterns of the options matches.\<close>

definition matchesPattern :: "options \<Rightarrow> string \<Rightarrow> bool" where
  "matchesPattern opts f =
     (regexSuffixTest ''services.json'' f \<or> regexSuffixTest ''parameters.json'' f \<or>
      (envTruthy (env opts) \<and>
       regexSuffixTest (''services_'' @ envString (env opts) @ ''.json'') f))"

text \<open>
  The namespace rule in words: a file that declares no namespace, or an empty one, keeps
  the inherited namespace; a declared namespace follows the inherited one after a dot,
  and stands alone when nothing is inherited. A name is qualified by a non-empty
  namespace and a dot.
\<close>

fun joinNamespace :: "string \<Rightarrow> string option \<Rightarrow> string" where
  "joinNamespace inherited None = inherited"
| "joinNamespace inherited (Some declared) =
     (if declared = [] then inherited
      else if inherited = [] then declared
      else inherited @ ''.'' @ declared)"

definition qualifiedName :: "string \<Rightarrow> string \<Rightarrow> string" where
  "qualifiedName ns key = (if ns = [] then key else ns @ ''.'' @ key)"

text \<open>A raw service record on which \<open>hasOwnProperty\<close> can be called.\<close>

definition normalisable :: "string \<times> jsobject \<Rightarrow> bool" where
  "normalisable entry = (\<not> hasOwnKey (snd entry) ''hasOwnProperty'')"

subsection \<open>Example inputs\<close>

text \<open>
  Two hosts: Node 11 and later, and Node up to 10 (for the short arrays of the
  examples).
\<close>

definition nodeHost :: host where
  "nodeHost = \<lparr> hostSort = binaryInsertionSort, stackLimit = 10 \<rparr>"

definition legacyHost :: host where
  "legacyHost = \<lparr> hostSort = legacyInsertionSort, stackLimit = 10 \<rparr>"

definition emptyConfig :: config where
  "emptyConfig = \<lparr> namespace = None, importList = [], parameters = [], services = [] \<rparr>"

text \<open>
  A root directory \<open>/app\<close> with \<open>services.json\<close> and \<open>sub/services.json\<close>, listed in
  this order; both files define the service \<open>svc\<close>.
\<close>

definition layeredFs :: "string \<Rightarrow> fsnode" where
  "layeredFs p =
     (if p = ''/app''
      then FsDir [(''services.json'', FsFile), (''sub'', FsDir [(''services.json'', FsFile)])]
      else FsOther)"

definition layeredRequire :: "string \<Rightarrow> config option" where
  "layeredRequire p =
     (if p = ''/app/services.json''
      then Some (emptyConfig\<lparr> services := [(''svc'', [(''class'', JStr ''Root'')])] \<rparr>)
      else if p = ''/app/sub/services.json''
      then Some (emptyConfig\<lparr> services := [(''svc'', [(''class'', JStr ''Sub'')])] \<rparr>)
      else None)"

text \<open>The options object \<open>{env: "test"}\<close>.\<close>

definition testEnvOptions :: options where
  "testEnvOptions = \<lparr> env = EnvStr ''test'', ignoreNodeModulesDirectory = None \<rparr>"

text \<open>
  The file \<open>/app/services.json\<close> declares the namespace \<open>a\<close> and imports
  \<open>./b/services.json\<close>, which declares the namespace \<open>b\<close> and the parameter \<open>p = 5\<close>.
\<close>

definition nestedRequire :: "string \<Rightarrow> config option" where
  "nestedRequire p =
     (if p = ''/app/services.json''
      then Some (emptyConfig\<lparr> namespace := Some ''a'', importList := [''./b/services.json''] \<rparr>)
      else if p = ''/app/b/services.json''
      then Some (emptyConfig\<lparr> namespace := Some ''b'', parameters := [(''p'', JNum 5)] \<rparr>)
      else None)"

definition rootServicesFile :: fileinfo where
  "rootServicesFile =
     \<lparr> file' = ''/app/services.json'', dir = ''/app'', level = LUndefined,
       isEnvFile = Some False, isParamFile = Some False, preconfig = None \<rparr>"

text \<open>
  The parameter file \<open>/app/parameters.json\<close> has a parameter, a \<open>services\<close> field and an
  import, \<open>./extra.json\<close>, which defines a service.
\<close>

definition paramRequire :: "string \<Rightarrow> config option" where
  "paramRequire p =
     (if p = ''/app/parameters.json''
      then Some \<lparr> namespace = None, importList = [''./extra.json''],
                  parameters = [(''x'', JNum 1)],
                  services = [(''own'', [(''class'', JStr ''Own'')])] \<rparr>
      else if p = ''/app/extra.json''
      then Some (emptyConfig\<lparr> services := [(''imported'', [(''class'', JStr ''Imp'')])] \<rparr>)
      else None)"

definition rootParametersFile :: fileinfo where
  "rootParametersFile =
     \<lparr> file' = ''/app/parameters.json'', dir = ''/app'', level = LUndefined,
       isEnvFile = Some False, isParamFile = Some True, preconfig = None \<rparr>"


text \<open>
  A root directory \<open>/app\<close> with a package under \<open>node_modules\<close> that has its own
  \<open>services.json\<close>, and a \<open>services_test.json\<close>.
\<close>

definition modulesFs :: "string \<Rightarrow> fsnode" where
  "modulesFs p =
     (if p = ''/app''
      then FsDir [(''node_modules'', FsDir [(''pkg'', FsDir [(''services.json'', FsFile)])]),
                  (''services_test.json'', FsFile)]
      else FsOther)"

definition modulesRequire :: "string \<Rightarrow> config option" where
  "modulesRequire p =
     (if p = ''/app/node_modules/pkg/services.json''
      then Some (emptyConfig\<lparr> services := [(''dep'', [(''class'', JStr ''Dep'')])] \<rparr>)
      else if p = ''/app/services_test.json''
      then Some (emptyConfig\<lparr> services := [(''svc'', [(''class'', JStr ''Test'')])] \<rparr>)
      else None)"

text \<open>A service file descriptor as discovery makes it.\<close>

definition serviceFile :: "jsnum \<Rightarrow> string \<Rightarrow> string \<Rightarrow> fileinfo" where
  "serviceFile lvl d name =
     \<lparr> file' = d @ ''/'' @ name, dir = d, level = lvl,
       isEnvFile = Some False, isParamFile = Some False, preconfig = None \<rparr>"

text \<open>
  The file \<open>/app/services.json\<close> declares the namespace \<open>x\<close> and imports
  \<open>./b/services.json\<close>, which declares the empty namespace and the parameter \<open>p = 5\<close>.
\<close>

definition emptyNamespaceRequire :: "string \<Rightarrow> config option" where
  "emptyNamespaceRequire p =
     (if p = ''/app/services.json''
      then Some (emptyConfig\<lparr> namespace := Some ''x'', importList := [''./b/services.json''] \<rparr>)
      else if p = ''/app/b/services.json''
      then Some (emptyConfig\<lparr> namespace := Some [], parameters := [(''p'', JNum 5)] \<rparr>)
      else None)"

section \<open>Properties\<close>

subsection \<open>Options of the builder\<close>

text \<open>
  C10. \<open>buildContainer\<close> called with an options object stores that object in place of
  the builder's options, whatever it contains, and the builder keeps it: a later call on
  the same builder that leaves the options out runs with the options of the earlier call,
  exactly as if they had been passed again, and not with the defaults of a new builder.
\<close>

theorem buildContainer_options_persist:
  "fst (buildContainer h b root (Some opts)) = b\<lparr> options := opts \<rparr> \<and>
   options (fst (buildContainer h' (fst (buildContainer h b root (Some opts))) root' None))
     = opts \<and>
   buildContainer h' (fst (buildContainer h b root (Some opts))) root' None =
     buildContainer h' (fst (buildContainer h b root (Some opts))) root' (Some opts)"
  by (simp add: buildContainer_def setOptions_def Let_def
        split: sum.splits prod.splits option.splits)

theorem buildContainer_options_persist_witness:
  "options (fst (buildContainer nodeHost
      (fst (buildContainer nodeHost (newBuilder layeredFs layeredRequire) ''/app''
         (Some testEnvOptions))) ''/app'' None)) = testEnvOptions \<and>
   testEnvOptions \<noteq> defaultOptions"
proof -
  have "testEnvOptions \<noteq> defaultOptions"
    by (simp add: testEnvOptions_def defaultOptions_def)
  with buildContainer_options_persist
    [of nodeHost "newBuilder layeredFs layeredRequire" "''/app''" testEnvOptions
        nodeHost "''/app''"]
  show ?thesis by blast
qed

subsection \<open>Normalisation of a raw service record\<close>

text \<open>
  C8, as stated, at two records. The record \<open>{"class": "A", "hasOwnProperty": 1}\<close>
  hides the method that \<open>buildDefinition\<close> calls: normalisation throws a \<open>TypeError\<close>
  and yields no definition. At a record whose \<open>isSingleton\<close> property is present and
  holds \<open>undefined\<close>, the definition's \<open>isSingleton\<close> is \<open>undefined\<close>.
\<close>

theorem buildDefinition_throws_or_undefined:
  "buildDefinition [(''class'', JStr ''A''), (''hasOwnProperty'', JNum 1)] ''/app'' []
     = Inl TypeError \<and>
   map_sum id isSingleton (buildDefinition [(''isSingleton'', JUndefined)] ''/app'' [])
     = Inr JUndefined"
  by (simp add: buildDefinition_def builtDefinition_def hasOwnProperty_def hasOwnKey_def
        getProp_def)

text \<open>
  C8, amended. Normalisation throws a \<open>TypeError\<close> for a raw service record that has an
  own property named \<open>hasOwnProperty\<close>. For every other raw service record it yields a
  definition with \<open>isSingleton = true\<close> when the record has no \<open>isSingleton\<close> property,
  and with the record's own value when it has one, so an explicit \<open>false\<close> is kept;
  \<open>tags\<close> is the empty array when the record has no \<open>tags\<close>, and is never
  \<open>undefined\<close>; \<open>isSingleton\<close> is \<open>undefined\<close> only when the record itself holds an
  \<open>isSingleton\<close> property with the value \<open>undefined\<close>.
\<close>

theorem buildDefinition_defaults:
  "(hasOwnKey r ''hasOwnProperty'' \<longrightarrow> buildDefinition r d n = Inl TypeError) \<and>
   (\<not> hasOwnKey r ''hasOwnProperty'' \<longrightarrow>
      (\<exists>D. buildDefinition r d n = Inr D \<and>
         (\<not> hasOwnKey r ''isSingleton'' \<longrightarrow> isSingleton D = JBool True) \<and>
         (hasOwnKey r ''isSingleton'' \<longrightarrow> isSingleton D = getProp r ''isSingleton'') \<and>
         (getProp r ''isSingleton'' = JBool False \<longrightarrow> isSingleton D = JBool False) \<and>
         (\<not> hasOwnKey r ''tags'' \<longrightarrow> tags D = JArr []) \<and>
         tags D \<noteq> JUndefined \<and>
         (map_of r ''isSingleton'' \<noteq> Some JUndefined \<longrightarrow> isSingleton D \<noteq> JUndefined)))"
  by (auto simp add: buildDefinition_def builtDefinition_def hasOwnProperty_def hasOwnKey_def
        getProp_def split: option.splits)

theorem buildDefinition_defaults_witness:
  "map_sum id isSingleton (buildDefinition [(''class'', JStr ''Db'')] ''/app'' ''moduleA'')
     = Inr (JBool True) \<and>
   map_sum id tags (buildDefinition [(''class'', JStr ''Db'')] ''/app'' ''moduleA'')
     = Inr (JArr []) \<and>
   map_sum id isSingleton
     (buildDefinition [(''class'', JStr ''Db''), (''isSingleton'', JBool False)]
        ''/app'' ''moduleA'') = Inr (JBool False) \<and>
   buildDefinition [(''class'', JStr ''Db''), (''hasOwnProperty'', JBool True)]
     ''/app'' ''moduleA'' = Inl TypeError"
proof -
  have k: "\<not> hasOwnKey [(''class'', JStr ''Db'')] ''hasOwnProperty''"
    "\<not> hasOwnKey [(''class'', JStr ''Db'')] ''isSingleton''"
    "\<not> hasOwnKey [(''class'', JStr ''Db'')] ''tags''"
    "\<not> hasOwnKey [(''class'', JStr ''Db''), (''isSingleton'', JBool False)] ''hasOwnProperty''"
    "getProp [(''class'', JStr ''Db''), (''isSingleton'', JBool False)] ''isSingleton''
       = JBool False"
    "hasOwnKey [(''class'', JStr ''Db''), (''hasOwnProperty'', JBool True)] ''hasOwnProperty''"
    by (simp_all add: hasOwnKey_def getProp_def)
  from buildDefinition_defaults [of "[(''class'', JStr ''Db'')]" "''/app''" "''moduleA''"] k
  obtain D where D: "buildDefinition [(''class'', JStr ''Db'')] ''/app'' ''moduleA'' = Inr D"
    "isSingleton D = JBool True" "tags D = JArr []"
    by blast
  from buildDefinition_defaults
    [of "[(''class'', JStr ''Db''), (''isSingleton'', JBool False)]" "''/app''" "''moduleA''"] k
  obtain E where E: "buildDefinition [(''class'', JStr ''Db''), (''isSingleton'', JBool False)]
      ''/app'' ''moduleA'' = Inr E" "isSingleton E = JBool False"
    by blast
  from buildDefinition_defaults
    [of "[(''class'', JStr ''Db''), (''hasOwnProperty'', JBool True)]" "''/app''" "''moduleA''"] k
  have T: "buildDefinition [(''class'', JStr ''Db''), (''hasOwnProperty'', JBool True)]
     ''/app'' ''moduleA'' = Inl TypeError"
    by blast
  from D E T show ?thesis by simp
qed

subsection \<open>Method calls of a definition\<close>

lemma addMethodCall_ok:
  "calls d = JArr cs \<Longrightarrow> truthy m \<Longrightarrow> isString m \<Longrightarrow>
   addMethodCall d m a = Inr (d\<lparr> calls := JArr (cs @ [JArr [m, a]]) \<rparr>)"
  by (simp add: addMethodCall_def)

lemma setMethodCalls_accepted:
  "calls d = JArr cs \<Longrightarrow> list_all acceptsCall ok \<Longrightarrow>
   setMethodCalls d (ok @ rest) =
     setMethodCalls (d\<lparr> calls := JArr (cs @ map pushedEntry ok) \<rparr>) rest"
proof (induction ok arbitrary: d cs)
  case Nil
  then have "d\<lparr> calls := JArr cs \<rparr> = d" by (cases d) simp
  then show ?case by simp
next
  case (Cons c ok)
  from Cons.prems(2) have ac: "acceptsCall c" and ok: "list_all acceptsCall ok"
    by simp_all
  from ac obtain m a where
    c: "jsIndex c 0 = Inr m" "jsIndex c 1 = Inr a" "truthy m" "isString m"
    by (auto simp: acceptsCall_def split: sum.splits)
  let ?d = "d\<lparr> calls := JArr (cs @ [JArr [m, a]]) \<rparr>"
  have step: "addMethodCall d m a = Inr ?d"
    using Cons.prems(1) c by (simp add: addMethodCall_ok)
  have "calls ?d = JArr (cs @ [JArr [m, a]])" by simp
  from Cons.IH [OF this ok]
  have "setMethodCalls ?d (ok @ rest) =
        setMethodCalls (?d\<lparr> calls := JArr ((cs @ [JArr [m, a]]) @ map pushedEntry ok) \<rparr>) rest" .
  moreover have "pushedEntry c = JArr [m, a]" using c by (simp add: pushedEntry_def)
  ultimately show ?case using c step by simp
qed

lemma setMethodCalls_rejected:
  "\<not> acceptsCall bad \<Longrightarrow> calls d = JArr cs \<Longrightarrow>
   fst (setMethodCalls d (bad # rest)) = d \<and> snd (setMethodCalls d (bad # rest)) \<noteq> None"
  by (auto simp: acceptsCall_def addMethodCall_def split: sum.splits)

text \<open>
  On a definition whose \<open>calls\<close> is an array, as the constructor makes it:
  \<open>addMethodCall(method, args)\<close> throws its invalid-argument error exactly when
  \<open>method\<close> is not a string or is the empty string, and otherwise appends the pair
  \<open>[method, args]\<close> to \<open>calls\<close>. \<open>setMethodCalls\<close> appends the pairs in order: when
  all are accepted, all are appended; when the pair after the accepted pairs \<open>ok\<close> is
  rejected, the loop ends with an error, the pairs of \<open>ok\<close> stay appended and nothing
  of the rest is.
\<close>

lemma addMethodCall_setMethodCalls_on_array:
  assumes "calls d = JArr cs"
  shows "(addMethodCall d m a = Inl InvalidArgument \<longleftrightarrow> (\<not> isString m \<or> m = JStr [])) \<and>
   (isString m \<and> m \<noteq> JStr [] \<longrightarrow>
      addMethodCall d m a = Inr (d\<lparr> calls := JArr (cs @ [JArr [m, a]]) \<rparr>)) \<and>
   (list_all acceptsCall ok \<longrightarrow>
      setMethodCalls d ok = (d\<lparr> calls := JArr (cs @ map pushedEntry ok) \<rparr>, None)) \<and>
   (list_all acceptsCall ok \<and> \<not> acceptsCall bad \<longrightarrow>
      fst (setMethodCalls d (ok @ bad # rest)) = d\<lparr> calls := JArr (cs @ map pushedEntry ok) \<rparr> \<and>
      snd (setMethodCalls d (ok @ bad # rest)) \<noteq> None)"
proof (intro conjI impI)
  show "addMethodCall d m a = Inl InvalidArgument \<longleftrightarrow> (\<not> isString m \<or> m = JStr [])"
    using assms by (cases m) (auto simp: addMethodCall_def)
next
  assume "isString m \<and> m \<noteq> JStr []"
  then have "truthy m" "isString m" by (cases m; simp)+
  then show "addMethodCall d m a = Inr (d\<lparr> calls := JArr (cs @ [JArr [m, a]]) \<rparr>)"
    using assms by (simp add: addMethodCall_ok)
next
  assume "list_all acceptsCall ok"
  from setMethodCalls_accepted [OF assms this, of "[]"]
  show "setMethodCalls d ok = (d\<lparr> calls := JArr (cs @ map pushedEntry ok) \<rparr>, None)" by simp
next
  assume h: "list_all acceptsCall ok \<and> \<not> acceptsCall bad"
  let ?d = "d\<lparr> calls := JArr (cs @ map pushedEntry ok) \<rparr>"
  have eq: "setMethodCalls d (ok @ bad # rest) = setMethodCalls ?d (bad # rest)"
    using setMethodCalls_accepted [OF assms, of ok "bad # rest"] h by simp
  have "calls ?d = JArr (cs @ map pushedEntry ok)" by simp
  from setMethodCalls_rejected [OF _ this, of bad rest] h
  have r: "fst (setMethodCalls ?d (bad # rest)) = ?d \<and> snd (setMethodCalls ?d (bad # rest)) \<noteq> None" by simp
  show "fst (setMethodCalls d (ok @ bad # rest)) = ?d" using eq r by simp
  show "snd (setMethodCalls d (ok @ bad # rest)) \<noteq> None" using eq r by simp
qed

text \<open>
  C9, at the definition that the builder makes of the raw service record
  \<open>{"class": "A"}\<close>. \<open>buildDefinition\<close> copies \<open>config.calls\<close>, which is
  \<open>undefined\<close> here, over the empty array of the constructor (while \<open>tags\<close> gets its
  empty array): \<open>addMethodCall("init", [])\<close>, with a valid method name, then throws a
  \<open>TypeError\<close> at \<open>this.calls.push\<close> and appends nothing, and so does
  \<open>setMethodCalls\<close> at its first pair.
\<close>

theorem addMethodCall_on_built_definition:
  "buildDefinition [(''class'', JStr ''A'')] ''/app'' []
     = Inr (builtDefinition [(''class'', JStr ''A'')] ''/app'' [] False) \<and>
   calls (builtDefinition [(''class'', JStr ''A'')] ''/app'' [] False) = JUndefined \<and>
   tags (builtDefinition [(''class'', JStr ''A'')] ''/app'' [] False) = JArr [] \<and>
   addMethodCall (builtDefinition [(''class'', JStr ''A'')] ''/app'' [] False)
     (JStr ''init'') (JArr []) = Inl TypeError \<and>
   setMethodCalls (builtDefinition [(''class'', JStr ''A'')] ''/app'' [] False)
     [JArr [JStr ''init'', JArr []]]
     = (builtDefinition [(''class'', JStr ''A'')] ''/app'' [] False, Some TypeError)"
  by (simp add: buildDefinition_def builtDefinition_def hasOwnProperty_def hasOwnKey_def
        getProp_def addMethodCall_def)

theorem addMethodCall_on_built_definition_witness:
  "truthy (JStr ''init'') \<and> isString (JStr ''init'') \<and>
   addMethodCall (builtDefinition [(''class'', JStr ''A'')] ''/app'' [] False)
     (JStr ''init'') (JArr []) = Inl TypeError \<and>
   addMethodCall (builtDefinition [(''class'', JStr ''A'')] ''/app'' [] False)
     (JStr ''init'') (JArr []) \<noteq> Inl InvalidArgument"
  using addMethodCall_on_built_definition by simp

subsection \<open>Resolution of a file\<close>

text \<open>
  One step of \<open>parseFile\<close> once the configuration is read; the calls of a run over the
  imports, which are those of the imports it reached, in order; the calls of the loop
  over the own services, which are those of the records before the first that makes
  \<open>buildDefinition\<close> throw; and what a run of \<open>setParameter\<close> or \<open>set\<close> calls with
  distinct names leaves in the container.
\<close>

lemma parseFile_Suc:
  "getConfig req fi = Some cfg \<Longrightarrow>
   parseFile req (Suc k) fi ns =
     (case parseImports req k fi (effectiveNamespace ns cfg) (importList cfg) of
        (imported, Some e) \<Rightarrow> (imported, Some e)
      | (imported, None) \<Rightarrow>
          (imported @ ownParameters (effectiveNamespace ns cfg) cfg
             @ fst (ownServices fi (effectiveNamespace ns cfg) cfg),
           snd (ownServices fi (effectiveNamespace ns cfg) cfg)))"
  by (simp add: Let_def split: prod.splits option.splits)

lemma parseImports_reached:
  "\<exists>n\<le>length imps.
     fst (parseImports req k fi ns imps) =
       concat (map (\<lambda>imp. fst (parseFile req k (importDescriptor fi imp) ns)) (take n imps)) \<and>
     (snd (parseImports req k fi ns imps) = None \<longrightarrow> n = length imps)"
proof (induction imps)
  case Nil
  then show ?case by simp
next
  case (Cons imp imps)
  obtain first err where f: "parseFile req k (importDescriptor fi imp) ns = (first, err)"
    by (cases "parseFile req k (importDescriptor fi imp) ns")
  show ?case
  proof (cases err)
    case (Some e)
    have p: "parseImports req k fi ns (imp # imps) = (first, Some e)"
      using f Some by simp
    have "Suc 0 \<le> length (imp # imps) \<and>
     fst (parseImports req k fi ns (imp # imps)) =
       concat (map (\<lambda>imp. fst (parseFile req k (importDescriptor fi imp) ns))
                 (take (Suc 0) (imp # imps))) \<and>
     (snd (parseImports req k fi ns (imp # imps)) = None \<longrightarrow> Suc 0 = length (imp # imps))"
      unfolding p using f by simp
    then show ?thesis by (rule_tac x = "Suc 0" in exI)
  next
    case None
    from Cons.IH obtain n where n: "n \<le> length imps"
      "fst (parseImports req k fi ns imps) =
         concat (map (\<lambda>imp. fst (parseFile req k (importDescriptor fi imp) ns)) (take n imps))"
      "snd (parseImports req k fi ns imps) = None \<longrightarrow> n = length imps"
      by (elim exE conjE)
    have p: "parseImports req k fi ns (imp # imps) =
        (first @ fst (parseImports req k fi ns imps), snd (parseImports req k fi ns imps))"
      using f None by (simp split: prod.splits)
    have "Suc n \<le> length (imp # imps) \<and>
     fst (parseImports req k fi ns (imp # imps)) =
       concat (map (\<lambda>imp. fst (parseFile req k (importDescriptor fi imp) ns))
                 (take (Suc n) (imp # imps))) \<and>
     (snd (parseImports req k fi ns (imp # imps)) = None \<longrightarrow> Suc n = length (imp # imps))"
      unfolding p using f n by simp
    then show ?thesis by (rule_tac x = "Suc n" in exI)
  qed
qed

lemma parseImports_ok:
  "parseImports req k fi ns imps = (cs, None) \<Longrightarrow>
   cs = concat (map (\<lambda>imp. fst (parseFile req k (importDescriptor fi imp) ns)) imps)"
  using parseImports_reached [of imps req k fi ns] by auto


lemma setServices_normalisable:
  "list_all normalisable ss \<Longrightarrow> snd (setServices d ns ss) = None"
  by (induction ss)
     (auto simp: normalisable_def buildDefinition_def hasOwnProperty_def split: prod.splits)

lemma ownServices_normalisable:
  "list_all normalisable (services cfg) \<Longrightarrow> snd (ownServices fi ns cfg) = None"
  by (simp add: ownServices_def setServices_normalisable)




lemma runSink_ownParameters_definitions:
  "containerDefinitions (runSink (ownParameters ns cfg) c) = containerDefinitions c"
proof -
  have "containerDefinitions (foldl applyCall c (map (\<lambda>(i, v). SetParameter (f i) v) ps))
        = containerDefinitions c" for f and ps :: "(string \<times> jsval) list"
    by (induction ps arbitrary: c) (auto)
  then show ?thesis by (simp add: ownParameters_def runSink_def)
qed





lemma effectiveNamespace_join: "effectiveNamespace ns cfg = joinNamespace ns (namespace cfg)"
  by (cases "namespace cfg") (simp_all add: effectiveNamespace_def)

lemma modifiedNs_qualified: "modifiedNs ns @ key = qualifiedName ns key"
  by (simp add: modifiedNs_def qualifiedName_def)

lemma ownParameters_member:
  "(key, v) \<in> set (parameters cfg) \<Longrightarrow>
   SetParameter (qualifiedName ns key) v \<in> set (ownParameters ns cfg)"
  by (force simp: ownParameters_def modifiedNs_qualified)

lemma parseFile_no_imports:
  "getConfig req fi = Some cfg \<Longrightarrow> importList cfg = [] \<Longrightarrow>
   parseFile req (Suc k) fi ns =
     (ownParameters (effectiveNamespace ns cfg) cfg
        @ fst (ownServices fi (effectiveNamespace ns cfg) cfg),
      snd (ownServices fi (effectiveNamespace ns cfg) cfg))"
  by (simp add: Let_def split: prod.splits)

lemma parseImports_single:
  "parseImports req k fi ns [imp] = parseFile req k (importDescriptor fi imp) ns"
  by (cases "parseFile req k (importDescriptor fi imp) ns")
     (auto split: option.splits)

text \<open>
  C5, as stated, at a file that declares the namespace \<open>x\<close> and imports a file that
  declares the empty namespace and the parameter \<open>p = 5\<close>. The imported file inherits the
  non-empty namespace \<open>x\<close> and declares one: by the rule of the claim its effective
  namespace is \<open>x.\<close> and the parameter is named \<open>x..p\<close>. The code takes an empty
  declared namespace for none: it keeps \<open>x\<close> and calls \<open>setParameter("x.p", 5)\<close>.
\<close>

theorem parseFile_empty_namespace_keeps_inherited:
  "parseFile emptyNamespaceRequire (Suc (Suc 0)) rootServicesFile []
     = ([SetParameter ''x.p'' (JNum 5)], None) \<and>
   SetParameter ''x..p'' (JNum 5)
     \<notin> set (fst (parseFile emptyNamespaceRequire (Suc (Suc 0)) rootServicesFile []))"
  by (simp add: getConfig_def rootServicesFile_def emptyNamespaceRequire_def emptyConfig_def
        effectiveNamespace_def importDescriptor_def replaceLeadingDotDot_def
        ownParameters_def ownServices_def modifiedNs_def isJsonFileName_def Let_def
        suffix_to_prefix)

text \<open>
  C5, amended. A file that declares the namespace \<open>a\<close> and imports a file that declares
  the namespace \<open>b\<close> and a parameter \<open>p\<close> with value \<open>v\<close>, both namespaces non-empty:
  its resolution calls \<open>setParameter("a.b.p", v)\<close>. In general the effective namespace
  of a file is the inherited one when the file declares no namespace or an empty one,
  the declared one when nothing is inherited, and otherwise the inherited one, a dot and
  the declared one: the parameter of the imported file is set under the name that the
  rule gives applied twice, and a parameter of the importing file, once the import is
  resolved, under the name it gives applied once. The resolution succeeds when no
  service record of the two files has an own property \<open>hasOwnProperty\<close>.
\<close>

theorem parseFile_namespace_composition:
  assumes A: "getConfig req fiA = Some cfgA" "importList cfgA = [imp]"
      and B: "getConfig req (importDescriptor fiA imp) = Some cfgB" "importList cfgB = []"
             "(p, v) \<in> set (parameters cfgB)"
  shows "SetParameter
           (qualifiedName
              (joinNamespace (joinNamespace inh (namespace cfgA)) (namespace cfgB)) p) v
           \<in> set (fst (parseFile req (Suc (Suc k)) fiA inh)) \<and>
         (namespace cfgA = Some a \<and> a \<noteq> [] \<and> namespace cfgB = Some b \<and> b \<noteq> [] \<longrightarrow>
            SetParameter (a @ ''.'' @ b @ ''.'' @ p) v
              \<in> set (fst (parseFile req (Suc (Suc k)) fiA []))) \<and>
         (list_all normalisable (services cfgB) \<and> (q, w) \<in> set (parameters cfgA) \<longrightarrow>
            SetParameter (qualifiedName (joinNamespace inh (namespace cfgA)) q) w
              \<in> set (fst (parseFile req (Suc (Suc k)) fiA inh))) \<and>
         (list_all normalisable (services cfgA) \<and> list_all normalisable (services cfgB) \<longrightarrow>
            snd (parseFile req (Suc (Suc k)) fiA inh) = None)"
proof -
  have run: "SetParameter (qualifiedName (joinNamespace (joinNamespace i (namespace cfgA))
                 (namespace cfgB)) p) v
               \<in> set (fst (parseFile req (Suc (Suc k)) fiA i)) \<and>
             (list_all normalisable (services cfgB) \<and> (q, w) \<in> set (parameters cfgA) \<longrightarrow>
                SetParameter (qualifiedName (joinNamespace i (namespace cfgA)) q) w
                  \<in> set (fst (parseFile req (Suc (Suc k)) fiA i))) \<and>
             (list_all normalisable (services cfgA) \<and> list_all normalisable (services cfgB) \<longrightarrow>
                snd (parseFile req (Suc (Suc k)) fiA i) = None)" for i
  proof -
    define EA where "EA = joinNamespace i (namespace cfgA)"
    define EB where "EB = joinNamespace EA (namespace cfgB)"
    define fiB where "fiB = importDescriptor fiA imp"
    have fB: "parseFile req (Suc k) fiB EA =
        (ownParameters EB cfgB @ fst (ownServices fiB EB cfgB), snd (ownServices fiB EB cfgB))"
      using parseFile_no_imports [OF B(1) B(2), of k EA]
      by (simp add: EB_def fiB_def effectiveNamespace_join)
    have imps: "parseImports req (Suc k) fiA EA (importList cfgA) = parseFile req (Suc k) fiB EA"
      by (simp only: A(2) parseImports_single fiB_def)
    have fA: "parseFile req (Suc (Suc k)) fiA i =
        (case parseFile req (Suc k) fiB EA of
           (imported, Some e) \<Rightarrow> (imported, Some e)
         | (imported, None) \<Rightarrow>
             (imported @ ownParameters EA cfgA @ fst (ownServices fiA EA cfgA),
              snd (ownServices fiA EA cfgA)))"
      using parseFile_Suc [OF A(1), of "Suc k" i] imps
      by (simp only: EA_def effectiveNamespace_join)
    have mB: "SetParameter (qualifiedName EB p) v \<in> set (fst (parseFile req (Suc k) fiB EA))"
      using ownParameters_member [OF B(3), of EB] unfolding fB by simp
    have first: "SetParameter (qualifiedName EB p) v
                   \<in> set (fst (parseFile req (Suc (Suc k)) fiA i))"
      using mB unfolding fA
      by (cases "parseFile req (Suc k) fiB EA") (auto split: option.splits)
    have second: "SetParameter (qualifiedName EA q) w
                   \<in> set (fst (parseFile req (Suc (Suc k)) fiA i))"
      if okB: "list_all normalisable (services cfgB)" and m: "(q, w) \<in> set (parameters cfgA)"
    proof -
      have "snd (parseFile req (Suc k) fiB EA) = None"
        using ownServices_normalisable [OF okB] unfolding fB by simp
      then show ?thesis
        using ownParameters_member [OF m, of EA] unfolding fA
        by (cases "parseFile req (Suc k) fiB EA") auto
    qed
    have third: "snd (parseFile req (Suc (Suc k)) fiA i) = None"
      if okA: "list_all normalisable (services cfgA)"
        and okB: "list_all normalisable (services cfgB)"
    proof -
      have "snd (parseFile req (Suc k) fiB EA) = None"
        using ownServices_normalisable [OF okB] unfolding fB by simp
      then show ?thesis
        using ownServices_normalisable [OF okA, of fiA EA] unfolding fA
        by (cases "parseFile req (Suc k) fiB EA") auto
    qed
    from first second third show ?thesis
      unfolding EA_def EB_def by blast
  qed
  have named: "qualifiedName (joinNamespace (joinNamespace [] (Some a)) (Some b)) p
                 = a @ ''.'' @ b @ ''.'' @ p" if "a \<noteq> []" "b \<noteq> []"
    using that by (simp add: qualifiedName_def)
  have scenario: "SetParameter (a @ ''.'' @ b @ ''.'' @ p) v
              \<in> set (fst (parseFile req (Suc (Suc k)) fiA []))"
    if "namespace cfgA = Some a \<and> a \<noteq> [] \<and> namespace cfgB = Some b \<and> b \<noteq> []"
  proof -
    from that have n: "namespace cfgA = Some a" "namespace cfgB = Some b" "a \<noteq> []" "b \<noteq> []"
      by simp_all
    from run [of "[]"] have "SetParameter (qualifiedName (joinNamespace (joinNamespace []
         (namespace cfgA)) (namespace cfgB)) p) v
               \<in> set (fst (parseFile req (Suc (Suc k)) fiA []))"
      by (rule conjunct1)
    then show ?thesis
      by (simp only: n(1) n(2) named [OF n(3) n(4)])
  qed
  from run [of inh] scenario show ?thesis by blast
qed

theorem parseFile_namespace_composition_witness:
  "parseFile nestedRequire (Suc (Suc 0)) rootServicesFile []
     = ([SetParameter ''a.b.p'' (JNum 5)], None)"
proof -
  let ?cfgA = "emptyConfig\<lparr> namespace := Some ''a'', importList := [''./b/services.json''] \<rparr>"
  let ?cfgB = "emptyConfig\<lparr> namespace := Some ''b'', parameters := [(''p'', JNum 5)] \<rparr>"
  have A: "getConfig nestedRequire rootServicesFile = Some ?cfgA"
      "importList ?cfgA = [''./b/services.json'']"
    by (simp_all add: getConfig_def nestedRequire_def rootServicesFile_def)
  have B: "getConfig nestedRequire (importDescriptor rootServicesFile ''./b/services.json'')
             = Some ?cfgB"
      "importList ?cfgB = []" "(''p'', JNum 5) \<in> set (parameters ?cfgB)"
    by (simp_all add: getConfig_def nestedRequire_def rootServicesFile_def importDescriptor_def
          replaceLeadingDotDot_def emptyConfig_def Let_def)
  have n: "namespace ?cfgA = Some ''a'' \<and> ''a'' \<noteq> [] \<and> namespace ?cfgB = Some ''b'' \<and> ''b'' \<noteq> []"
    and ok: "list_all normalisable (services ?cfgA) \<and> list_all normalisable (services ?cfgB)"
    by (simp_all add: emptyConfig_def)
  have len: "length (fst (parseFile nestedRequire (Suc (Suc 0)) rootServicesFile [])) = 1"
    by (simp add: getConfig_def rootServicesFile_def nestedRequire_def emptyConfig_def
          effectiveNamespace_def importDescriptor_def replaceLeadingDotDot_def
          ownParameters_def ownServices_def modifiedNs_def isJsonFileName_def Let_def
          suffix_to_prefix)
  note t = parseFile_namespace_composition
    [OF A B, where inh = "[]" and a = "''a''" and b = "''b''" and k = 0]
  from t n
  have "SetParameter (''a'' @ ''.'' @ ''b'' @ ''.'' @ ''p'') (JNum 5)
          \<in> set (fst (parseFile nestedRequire (Suc (Suc 0)) rootServicesFile []))"
    by blast
  then have m: "SetParameter ''a.b.p'' (JNum 5)
          \<in> set (fst (parseFile nestedRequire (Suc (Suc 0)) rootServicesFile []))"
    by (simp only: append.simps)
  from t ok have s: "snd (parseFile nestedRequire (Suc (Suc 0)) rootServicesFile []) = None"
    by blast
  from m len have "fst (parseFile nestedRequire (Suc (Suc 0)) rootServicesFile [])
       = [SetParameter ''a.b.p'' (JNum 5)]"
    by (cases "fst (parseFile nestedRequire (Suc (Suc 0)) rootServicesFile [])") auto
  with s show ?thesis by (simp add: prod_eq_iff)
qed






lemma ownParameters_not_Set: "c \<in> set (ownParameters ns cfg) \<Longrightarrow> \<not> isSet c"
  by (auto simp: ownParameters_def)

text \<open>
  C7, as stated, at a parameter file that has a \<open>services\<close> field and imports a file
  that defines a service: its resolution calls \<open>set\<close> for the imported service, and the
  definitions of the container change.
\<close>

theorem parseFile_parameter_file_import_sets:
  "fst (parseFile paramRequire (Suc (Suc 0)) rootParametersFile []) =
     [Set ''imported'' (builtDefinition [(''class'', JStr ''Imp'')] ''/app'' [] False),
      SetParameter ''x'' (JNum 1)] \<and>
   containerDefinitions (makeEmptyContainer ''/app'') ''imported'' = None \<and>
   containerDefinitions
     (runSink (fst (parseFile paramRequire (Suc (Suc 0)) rootParametersFile []))
        (makeEmptyContainer ''/app'')) ''imported'' =
     Some (builtDefinition [(''class'', JStr ''Imp'')] ''/app'' [] False)"
  by (simp add: getConfig_def rootParametersFile_def paramRequire_def emptyConfig_def
          effectiveNamespace_def importDescriptor_def replaceLeadingDotDot_def
          ownParameters_def ownServices_def modifiedNs_def isJsonFileName_def Let_def
          buildDefinition_def hasOwnProperty_def hasOwnKey_def
          runSink_def makeEmptyContainer_def suffix_to_prefix)

text \<open>
  C7, amended. The resolution of a parameter file never calls \<open>set\<close> for the file's
  own \<open>services\<close> field: every \<open>set\<close> call it makes is made by the resolution of its
  imports (which are resolved as plain service files). With no imports it succeeds, makes
  the \<open>setParameter\<close> calls of its own parameters and nothing else, and leaves the
  definitions of the container unchanged.
\<close>

theorem parseFile_parameter_file:
  assumes pf: "flagTruthy (isParamFile fi)"
      and cfg: "getConfig req fi = Some cfg"
  shows "(\<forall>c \<in> set (fst (parseFile req (Suc k) fi ns)).
            isSet c \<longrightarrow>
            c \<in> set (fst (parseImports req k fi (effectiveNamespace ns cfg) (importList cfg)))) \<and>
         (importList cfg = [] \<longrightarrow>
            parseFile req (Suc k) fi ns = (ownParameters (effectiveNamespace ns cfg) cfg, None) \<and>
            containerDefinitions (runSink (fst (parseFile req (Suc k) fi ns)) co)
              = containerDefinitions co)"
proof -
  let ?E = "effectiveNamespace ns cfg"
  obtain imported err where imp: "parseImports req k fi ?E (importList cfg) = (imported, err)"
    by (cases "parseImports req k fi ?E (importList cfg)")
  have own: "ownServices fi ?E cfg = ([], None)" using pf by (simp add: ownServices_def)
  have res: "fst (parseFile req (Suc k) fi ns) =
             imported @ (if err = None then ownParameters ?E cfg else [])"
    unfolding parseFile_Suc [OF cfg] imp own by (cases err) simp_all
  have first: "\<forall>c \<in> set (fst (parseFile req (Suc k) fi ns)).
            isSet c \<longrightarrow> c \<in> set (fst (parseImports req k fi ?E (importList cfg)))"
    unfolding res imp using ownParameters_not_Set by (auto split: if_splits)
  have second: "parseFile req (Suc k) fi ns = (ownParameters ?E cfg, None) \<and>
            containerDefinitions (runSink (fst (parseFile req (Suc k) fi ns)) co)
              = containerDefinitions co" if "importList cfg = []"
    unfolding parseFile_Suc [OF cfg] own that
    by (simp add: runSink_ownParameters_definitions)
  from first second show ?thesis by blast
qed

theorem parseFile_parameter_file_witness:
  "parseFile paramRequire (Suc 0)
     (rootParametersFile\<lparr> preconfig := Some (emptyConfig\<lparr> parameters := [(''x'', JNum 1)],
        services := [(''own'', [(''class'', JStr ''Own'')])] \<rparr>) \<rparr>) [] =
     ([SetParameter ''x'' (JNum 1)], None)"
proof -
  let ?cfg = "emptyConfig\<lparr> parameters := [(''x'', JNum 1)],
        services := [(''own'', [(''class'', JStr ''Own'')])] \<rparr>"
  let ?fi = "rootParametersFile\<lparr> preconfig := Some ?cfg \<rparr>"
  have pf: "flagTruthy (isParamFile ?fi)" by (simp add: rootParametersFile_def)
  have cfg: "getConfig paramRequire ?fi = Some ?cfg" by (simp add: getConfig_def)
  have i: "importList ?cfg = []" by (simp add: emptyConfig_def)
  have o: "ownParameters (effectiveNamespace [] ?cfg) ?cfg = [SetParameter ''x'' (JNum 1)]"
    by (simp add: ownParameters_def effectiveNamespace_def emptyConfig_def modifiedNs_def)
  from parseFile_parameter_file [OF pf cfg, of 0 "[]"] i
  have "parseFile paramRequire (Suc 0) ?fi [] = (ownParameters (effectiveNamespace [] ?cfg) ?cfg, None)"
    by blast
  then show ?thesis by (simp only: o)
qed

subsection \<open>Discovery\<close>

text \<open>
  What discovery gives, by induction over the directory tree: a level that starts as
  \<open>undefined\<close> never becomes a number; without a truthy \<open>env\<close> no file is an
  environment file; with a truthy \<open>ignoreNodeModulesDirectory\<close> every file found below
  the start directory lies in a directory whose path has no \<open>node_modules\<close>, and
  without it the walk is the one of \<open>false\<close>. Started with a number, the level is that
  number for the files of the start directory and a greater one below it.
\<close>

lemma classify_fields:
  "d \<in> set (classify opts p f lvl) \<Longrightarrow> dir d = p \<and> level d = lvl \<and> file' d = f"
  by (auto simp: classify_def split: if_splits)

lemma classify_env:
  "\<not> envTruthy (env opts) \<Longrightarrow> d \<in> set (classify opts p f lvl) \<Longrightarrow> isEnvFile d = Some False"
  by (auto simp: classify_def split: if_splits)

lemma notNumber_jsSucc: "(\<forall>n. lvl \<noteq> LNum n) \<Longrightarrow> \<forall>n. jsSucc lvl \<noteq> LNum n"
  by (cases lvl) auto

lemma find_levels_not_numbers:
  "(\<forall>n. lvl \<noteq> LNum n) \<Longrightarrow> d \<in> set (findEntry opts p lvl e) \<Longrightarrow> level d \<noteq> LNum m"
  "(\<forall>n. lvl \<noteq> LNum n) \<Longrightarrow> d \<in> set (findEntries opts p lvl es) \<Longrightarrow> level d \<noteq> LNum m"
proof (induction opts p lvl e and opts p lvl es rule: findEntry_findEntries.induct)
  case (1 opts absolutePath lvl name sub)
  then show ?case
    by (auto simp: Let_def notNumber_jsSucc split: if_splits)
next
  case (2 opts absolutePath lvl name)
  then show ?case by (auto dest: classify_fields)
qed auto

lemma find_env_false:
  "\<not> envTruthy (env opts) \<Longrightarrow> d \<in> set (findEntry opts p lvl e) \<Longrightarrow> isEnvFile d = Some False"
  "\<not> envTruthy (env opts) \<Longrightarrow> d \<in> set (findEntries opts p lvl es) \<Longrightarrow> isEnvFile d = Some False"
proof (induction opts p lvl e and opts p lvl es rule: findEntry_findEntries.induct)
  case (1 opts absolutePath lvl name sub)
  then show ?case by (auto simp: Let_def split: if_splits)
next
  case (2 opts absolutePath lvl name)
  then show ?case by (auto dest: classify_env)
qed auto

lemma find_pruned:
  "flagTruthy (ignoreNodeModulesDirectory opts) \<Longrightarrow> d \<in> set (findEntry opts p lvl e) \<Longrightarrow>
     dir d = p \<or> \<not> sublist ''node_modules'' (dir d)"
  "flagTruthy (ignoreNodeModulesDirectory opts) \<Longrightarrow> d \<in> set (findEntries opts p lvl es) \<Longrightarrow>
     dir d = p \<or> \<not> sublist ''node_modules'' (dir d)"
proof (induction opts p lvl e and opts p lvl es rule: findEntry_findEntries.induct)
  case (1 opts absolutePath lvl name sub)
  then show ?case by (auto simp: Let_def indexOfIsMinus1_def split: if_splits)
next
  case (2 opts absolutePath lvl name)
  then show ?case by (auto dest: classify_fields)
qed auto

lemma classify_ignore:
  "classify (opts\<lparr> ignoreNodeModulesDirectory := x \<rparr>) p f lvl = classify opts p f lvl"
  by (simp add: classify_def)

lemma find_not_pruned:
  "\<not> flagTruthy (ignoreNodeModulesDirectory opts) \<Longrightarrow>
     findEntry opts p lvl e = findEntry (opts\<lparr> ignoreNodeModulesDirectory := Some False \<rparr>) p lvl e"
  "\<not> flagTruthy (ignoreNodeModulesDirectory opts) \<Longrightarrow>
     findEntries opts p lvl es = findEntries (opts\<lparr> ignoreNodeModulesDirectory := Some False \<rparr>) p lvl es"
proof (induction opts p lvl e and opts p lvl es rule: findEntry_findEntries.induct)
  case (1 opts absolutePath lvl name sub)
  then show ?case by (simp add: Let_def)
next
  case (2 opts absolutePath lvl name)
  then show ?case by (simp add: classify_ignore)
qed auto

lemma find_levels_numbers:
  "d \<in> set (findEntry opts p (LNum n) e) \<Longrightarrow>
     \<exists>m\<ge>n. level d = LNum m \<and> prefix p (dir d) \<and> (dir d = p \<longleftrightarrow> m = n)"
  "d \<in> set (findEntries opts p (LNum n) es) \<Longrightarrow>
     \<exists>m\<ge>n. level d = LNum m \<and> prefix p (dir d) \<and> (dir d = p \<longleftrightarrow> m = n)"
proof (induction opts p "LNum n" e and opts p "LNum n" es arbitrary: n and n rule: findEntry_findEntries.induct)
  case (1 opts absolutePath name sub)
  let ?fp = "absolutePath @ ''/'' @ name"
  from 1(2) have cond: "\<not> flagTruthy (ignoreNodeModulesDirectory opts) \<or>
       indexOfIsMinus1 ?fp ''node_modules''"
    and mem: "d \<in> set (findEntries opts ?fp (LNum (n + 1)) sub)"
    by (auto simp: Let_def split: if_splits)
  from 1(1) [OF refl cond _ mem] obtain m where
    m: "m \<ge> n + 1" "level d = LNum m" "prefix ?fp (dir d)"
    by auto
  from m(3) have "prefix absolutePath (dir d)" "dir d \<noteq> absolutePath"
    by (auto simp: prefix_def)
  with m show ?case by auto
next
  case (2 opts absolutePath name)
  then show ?case by (auto dest: classify_fields)
qed auto

text \<open>
  The files discovery finds, as paths: the regular files of the tree that one of the
  patterns matches, in the order of the listings, where the walk goes into every
  subdirectory without a truthy \<open>ignoreNodeModulesDirectory\<close> and, with it, into those
  whose path has no \<open>node_modules\<close>.
\<close>

lemma classify_paths:
  "map (\<lambda>d. (dir d, file' d)) (classify opts p f lvl) =
     (if matchesPattern opts f then [(p, f)] else [])"
  by (simp add: classify_def matchesPattern_def)

lemma find_tree:
  "map (\<lambda>d. (dir d, file' d)) (findEntry opts p lvl e) =
     filter (\<lambda>(d, f). matchesPattern opts f)
       (treeFile (\<lambda>q. \<not> flagTruthy (ignoreNodeModulesDirectory opts) \<or>
                       \<not> sublist ''node_modules'' q) p e)"
  "map (\<lambda>d. (dir d, file' d)) (findEntries opts p lvl es) =
     filter (\<lambda>(d, f). matchesPattern opts f)
       (treeFiles (\<lambda>q. \<not> flagTruthy (ignoreNodeModulesDirectory opts) \<or>
                        \<not> sublist ''node_modules'' q) p es)"
proof (induction opts p lvl e and opts p lvl es rule: findEntry_findEntries.induct)
  case (1 opts absolutePath lvl name sub)
  then show ?case by (simp add: Let_def indexOfIsMinus1_def)
next
  case (2 opts absolutePath lvl name)
  then show ?case by (simp add: classify_paths)
qed simp_all

lemma find_tree_all:
  "\<not> flagTruthy (ignoreNodeModulesDirectory opts) \<Longrightarrow>
   map (\<lambda>d. (dir d, file' d)) (findServiceJsonFiles opts es p lvl) =
     filter (\<lambda>(d, f). matchesPattern opts f) (treeFiles (\<lambda>q. True) p es)"
  by (simp add: findServiceJsonFiles_def find_tree(2))

lemma find_tree_pruned:
  "flagTruthy (ignoreNodeModulesDirectory opts) \<Longrightarrow>
   map (\<lambda>d. (dir d, file' d)) (findServiceJsonFiles opts es p lvl) =
     filter (\<lambda>(d, f). matchesPattern opts f)
       (treeFiles (\<lambda>q. \<not> sublist ''node_modules'' q) p es)"
  by (simp add: findServiceJsonFiles_def find_tree(2))

lemma find_env_files:
  "\<not> envTruthy (env opts) \<Longrightarrow>
   \<forall>d \<in> set (findServiceJsonFiles opts es p lvl). isEnvFile d = Some False"
  using find_env_false(2) by (simp add: findServiceJsonFiles_def)

subsection \<open>The hierarchy sort\<close>

text \<open>
  The comparator is never negative, and it is 0 whenever the second level is no number.
  A comparator that is never negative makes the whole array one ascending run for the
  binary insertion sort, which then returns it as it is; the legacy insertion sort moves
  nothing when every comparison is 0. Both sorts permute their input, and so does
  \<open>sortFilesByHierarchy\<close> with any sort that does. Within the lengths the two
  routines stand for (fewer than 64 files for the binary insertion sort, at most ten for
  the legacy insertion sort, there with levels that are no numbers), the result of
  \<open>sortFilesByHierarchy\<close> is the group of the service files, then the environment
  files, then the parameter files, each in the order of discovery.
\<close>

lemma sortFuncNumber_nonneg: "0 \<le> sortFuncNumber a b"
  by (simp add: sortFuncNumber_def sortFunc_def)

lemma sortFuncNumber_not_numbers:
  "(\<forall>n. level b \<noteq> LNum n) \<Longrightarrow> sortFuncNumber a b = 0"
  by (cases "level a"; cases "level b") (auto simp: sortFuncNumber_def sortFunc_def)

lemma countRun_nonneg:
  "(\<And>a b. 0 \<le> comparefn a b) \<Longrightarrow> countRun comparefn False previous rest = length rest"
  by (induction rest arbitrary: previous) (auto simp: not_less)

lemma binaryInsertionSort_nonneg:
  assumes "\<And>a b. 0 \<le> comparefn a b"
  shows "binaryInsertionSort comparefn a = a"
proof (cases a)
  case Nil
  then show ?thesis by (simp add: binaryInsertionSort_def)
next
  case (Cons low tl)
  show ?thesis
  proof (cases tl)
    case Nil
    with Cons show ?thesis by (simp add: binaryInsertionSort_def)
  next
    case (Cons second rest)
    have "\<not> comparefn second low < 0" using assms [of second low] by simp
    with Cons \<open>a = low # tl\<close> countRun_nonneg [of comparefn second rest, OF assms]
    show ?thesis by (simp add: binaryInsertionSort_def Let_def)
  qed
qed

lemma legacy_foldl_ties:
  "(\<And>t e. e \<in> set xs \<Longrightarrow> comparefn t e = 0) \<Longrightarrow>
   foldl (\<lambda>placed element. legacyInsert comparefn element placed) acc xs = rev xs @ acc"
proof (induction xs arbitrary: acc)
  case Nil
  then show ?case by simp
next
  case (Cons x xs)
  have "legacyInsert comparefn x acc = x # acc"
    using Cons.prems [of x] by (cases acc) auto
  with Cons show ?case by simp
qed

lemma legacyInsertionSort_ties:
  "(\<And>t e. e \<in> set xs \<Longrightarrow> comparefn t e = 0) \<Longrightarrow> legacyInsertionSort comparefn xs = xs"
  by (simp add: legacyInsertionSort_def legacy_foldl_ties)

lemma distribute_filter:
  "distribute files =
     (filter (\<lambda>f. flagTruthy (isEnvFile f)) files,
      filter (\<lambda>f. \<not> flagTruthy (isEnvFile f) \<and> \<not> flagTruthy (isParamFile f)) files,
      filter (\<lambda>f. \<not> flagTruthy (isEnvFile f) \<and> flagTruthy (isParamFile f)) files)"
  by (induction files) auto

lemma sortFilesByHierarchy_permutation:
  assumes "\<And>xs. mset (srt sortFuncNumber xs) = mset xs"
  shows "mset (sortFilesByHierarchy srt files) = mset files"
proof -
  have "mset (filter P files) + mset (filter (\<lambda>f. \<not> P f \<and> \<not> Q f) files)
          + mset (filter (\<lambda>f. \<not> P f \<and> Q f) files) = mset files" for P Q :: "fileinfo \<Rightarrow> bool"
    by (induction files) auto
  then show ?thesis
    using assms by (simp add: sortFilesByHierarchy_def distribute_filter ac_simps)
qed

lemma legacyInsert_mset: "mset (legacyInsert comparefn e xs) = add_mset e (mset xs)"
  by (induction xs) auto

lemma legacyInsertionSort_mset: "mset (legacyInsertionSort comparefn xs) = mset xs"
proof -
  have "mset (foldl (\<lambda>placed element. legacyInsert comparefn element placed) acc xs)
        = mset xs + mset acc" for acc
    by (induction xs arbitrary: acc) (auto simp: legacyInsert_mset)
  then show ?thesis by (simp add: legacyInsertionSort_def)
qed

lemma binaryInsert_mset: "mset (binaryInsert comparefn xs p) = add_mset p (mset xs)"
proof -
  have "mset (take n xs @ p # drop n xs) = add_mset p (mset xs)" for n
    by (metis append_take_drop_id mset.simps(2) mset_append union_mset_add_mset_right)
  then show ?thesis by (simp add: binaryInsert_def Let_def)
qed

lemma binaryInsertionSort_mset: "mset (binaryInsertionSort comparefn xs) = mset xs"
proof -
  have f: "mset (foldl (binaryInsert comparefn) acc ys) = mset acc + mset ys" for acc ys
    by (induction ys arbitrary: acc) (auto simp: binaryInsert_mset)
  have t: "mset (take n ys) + mset (drop n ys) = mset ys" for n and ys :: "'a list"
    by (metis append_take_drop_id mset_append)
  have g: "mset (foldl (binaryInsert comparefn) (if b then rev (take n ys) else take n ys)
             (drop n ys)) = mset ys" for b n ys
    by (simp add: f t)
  show ?thesis
  proof (cases xs)
    case Nil
    then show ?thesis by (simp add: binaryInsertionSort_def)
  next
    case (Cons low tl)
    show ?thesis
    proof (cases tl)
      case Nil
      with Cons show ?thesis by (simp add: binaryInsertionSort_def)
    next
      case (Cons second rest)
      with \<open>xs = low # tl\<close> have
        "binaryInsertionSort comparefn xs =
           foldl (binaryInsert comparefn)
             (if comparefn second low < 0
              then rev (take (2 + countRun comparefn (comparefn second low < 0) second rest) xs)
              else take (2 + countRun comparefn (comparefn second low < 0) second rest) xs)
             (drop (2 + countRun comparefn (comparefn second low < 0) second rest) xs)"
        by (simp add: binaryInsertionSort_def Let_def del: take_Suc_Cons drop_Suc_Cons)
      then show ?thesis by (simp only: g)
    qed
  qed
qed

lemma sortFilesByHierarchy_node:
  assumes "length files < 64"
  shows "sortFilesByHierarchy binaryInsertionSort files =
     filter (\<lambda>f. \<not> flagTruthy (isEnvFile f) \<and> \<not> flagTruthy (isParamFile f)) files
     @ filter (\<lambda>f. flagTruthy (isEnvFile f)) files
     @ filter (\<lambda>f. \<not> flagTruthy (isEnvFile f) \<and> flagTruthy (isParamFile f)) files"
  by (simp add: sortFilesByHierarchy_def distribute_filter
        binaryInsertionSort_nonneg [of sortFuncNumber, OF sortFuncNumber_nonneg])

lemma sortFilesByHierarchy_legacy_not_numbers:
  assumes "\<forall>d \<in> set files. \<forall>n. level d \<noteq> LNum n"
      and "length files \<le> 10"
  shows "sortFilesByHierarchy legacyInsertionSort files =
     filter (\<lambda>f. \<not> flagTruthy (isEnvFile f) \<and> \<not> flagTruthy (isParamFile f)) files
     @ filter (\<lambda>f. flagTruthy (isEnvFile f)) files
     @ filter (\<lambda>f. \<not> flagTruthy (isEnvFile f) \<and> flagTruthy (isParamFile f)) files"
proof -
  have "legacyInsertionSort sortFuncNumber (filter P files) = filter P files" for P
    using assms(1) by (intro legacyInsertionSort_ties sortFuncNumber_not_numbers) auto
  then show ?thesis by (simp add: sortFilesByHierarchy_def distribute_filter)
qed

subsection \<open>One build, end to end\<close>

text \<open>The equations that evaluate a build on a concrete file system.\<close>

lemmas build_evals = discovered_def newBuilder_def findServiceJsonFiles_def
        defaultOptions_def classify_def regexSuffixTest_def atomMatches_def
        indexOfIsMinus1_def Let_def sublist_code setOptions_def
        sortFilesByHierarchy_def binaryInsertionSort_def legacyInsertionSort_def
        sortFuncNumber_def sortFunc_def buildCalls_def buildContainer_def
        getConfig_def emptyConfig_def effectiveNamespace_def importDescriptor_def
        replaceLeadingDotDot_def ownParameters_def ownServices_def modifiedNs_def
        isJsonFileName_def runSink_def makeEmptyContainer_def suffix_to_prefix
        buildDefinition_def hasOwnProperty_def hasOwnKey_def eval_nat_numeral

text \<open>
  C2, at the root directory \<open>/app\<close> with \<open>services.json\<close> and
  \<open>sub/services.json\<close>. \<open>buildContainer\<close> calls
  \<open>findServiceJsonFiles(rootdirectory)\<close> without a level: the descriptor of the file in
  the root directory has the level \<open>undefined\<close>, not 0, and the one of the file in the
  subdirectory has \<open>undefined + 1\<close>, which is \<open>NaN\<close>, not 1.
\<close>

theorem discovered_levels_are_not_integers:
  "discovered (newBuilder layeredFs layeredRequire) ''/app'' =
     Inr [serviceFile LUndefined ''/app'' ''services.json'',
          serviceFile LNaN ''/app/sub'' ''services.json'']"
  by (simp add: build_evals layeredFs_def serviceFile_def)

text \<open>
  C3, as stated, at the options \<open>{env: "test"}\<close> and a root directory with a package
  under \<open>node_modules\<close>: the default \<open>true\<close> of \<open>ignoreNodeModulesDirectory\<close> does
  not apply, the directory \<open>node_modules\<close> is walked and the service of the package is
  in the container.
\<close>

theorem buildContainer_env_only_walks_node_modules:
  "discovered (fst (buildContainer nodeHost (newBuilder modulesFs modulesRequire) ''/app''
       (Some testEnvOptions))) ''/app'' =
     Inr [serviceFile LNaN ''/app/node_modules/pkg'' ''services.json'',
          (serviceFile LUndefined ''/app'' ''services_test.json'')\<lparr> isEnvFile := Some True \<rparr>] \<and>
   snd (buildContainer nodeHost (newBuilder modulesFs modulesRequire) ''/app''
       (Some testEnvOptions)) =
     Inr (runSink
            [Set ''dep'' (builtDefinition [(''class'', JStr ''Dep'')] ''/app/node_modules/pkg'' [] False),
             Set ''svc'' (builtDefinition [(''class'', JStr ''Test'')] ''/app'' [] False)]
            (makeEmptyContainer ''/app''))"
  by (simp add: build_evals nodeHost_def modulesFs_def modulesRequire_def testEnvOptions_def
        serviceFile_def)

text \<open>
  C3, amended. \<open>buildContainer\<close> on a root directory that can be listed, with an
  \<open>env\<close> that has no metacharacter of a regular expression but the dot. The options
  in use are the options object it is given, as a whole, and the stored options when it
  is given none; they are stored in the builder, and no default is filled in for an
  option the object leaves out. The defaults \<open>{env: false,
  ignoreNodeModulesDirectory: true}\<close> are the options of a new builder. The result of
  the call is that of resolving, in the order of the hierarchy sort, the files that
  discovery finds with the options in use. When \<open>ignoreNodeModulesDirectory\<close> is left
  out or false in them, these are all the regular files of the tree, whatever the names of
  the directories, that a file pattern of the options matches; when it is true, they are
  those files that the walk reaches without going into a subdirectory whose path contains
  \<open>node_modules\<close>. When \<open>env\<close> is left out or false, no file is found as an
  environment file.
\<close>

theorem buildContainer_options_wholesale:
  assumes root: "fs b root = FsDir es"
      and used: "used = (case given of Some p \<Rightarrow> p | None \<Rightarrow> options b)"
      and plain: "plainEnv (env used)"
  shows "fst (buildContainer h b root given) = b\<lparr> options := used \<rparr> \<and>
         options (newBuilder fsys req) = defaultOptions \<and>
         snd (buildContainer h b root given) =
           (case parseFiles (require b) (stackLimit h)
                   (sortFilesByHierarchy (hostSort h)
                      (findServiceJsonFiles used es root LUndefined)) of
              (cs, None) \<Rightarrow> Inr (runSink cs (makeEmptyContainer root))
            | (cs, Some e) \<Rightarrow> Inl e) \<and>
         (\<not> flagTruthy (ignoreNodeModulesDirectory used) \<longrightarrow>
            map (\<lambda>d. (dir d, file' d)) (findServiceJsonFiles used es root LUndefined) =
              filter (\<lambda>(d, f). matchesPattern used f) (treeFiles (\<lambda>q. True) root es)) \<and>
         (flagTruthy (ignoreNodeModulesDirectory used) \<longrightarrow>
            map (\<lambda>d. (dir d, file' d)) (findServiceJsonFiles used es root LUndefined) =
              filter (\<lambda>(d, f). matchesPattern used f)
                (treeFiles (\<lambda>q. \<not> sublist ''node_modules'' q) root es)) \<and>
         (\<not> envTruthy (env used) \<longrightarrow>
            (\<forall>d \<in> set (findServiceJsonFiles used es root LUndefined).
               isEnvFile d = Some False))"
proof -
  have stored: "setOptions b given = b\<lparr> options := used \<rparr>"
    by (simp add: setOptions_def used)
  have calls: "buildCalls h (b\<lparr> options := used \<rparr>) root =
      Inr (parseFiles (require b) (stackLimit h)
             (sortFilesByHierarchy (hostSort h) (findServiceJsonFiles used es root LUndefined)))"
    by (simp add: buildCalls_def discovered_def root)
  have first: "fst (buildContainer h b root given) = b\<lparr> options := used \<rparr>"
    by (simp add: buildContainer_def stored calls Let_def split: prod.splits option.splits)
  have second: "options (newBuilder fsys req) = defaultOptions"
    by (simp add: newBuilder_def)
  have third: "snd (buildContainer h b root given) =
           (case parseFiles (require b) (stackLimit h)
                   (sortFilesByHierarchy (hostSort h)
                      (findServiceJsonFiles used es root LUndefined)) of
              (cs, None) \<Rightarrow> Inr (runSink cs (makeEmptyContainer root))
            | (cs, Some e) \<Rightarrow> Inl e)"
    by (simp add: buildContainer_def stored calls Let_def split: prod.splits option.splits)
  show ?thesis
    apply (rule conjI, rule first)
    apply (rule conjI, rule second)
    apply (rule conjI, rule third)
    apply (rule conjI, rule impI, erule find_tree_all)
    apply (rule conjI, rule impI, erule find_tree_pruned)
    apply (rule impI, erule find_env_files)
    done
qed

theorem buildContainer_options_wholesale_witness:
  "fst (buildContainer nodeHost (newBuilder modulesFs modulesRequire) ''/app''
      (Some testEnvOptions)) = (newBuilder modulesFs modulesRequire)\<lparr> options := testEnvOptions \<rparr> \<and>
   map (\<lambda>d. (dir d, file' d))
     (findServiceJsonFiles testEnvOptions
        [(''node_modules'', FsDir [(''pkg'', FsDir [(''services.json'', FsFile)])]),
         (''services_test.json'', FsFile)] ''/app'' LUndefined) =
     [(''/app/node_modules/pkg'', ''/app/node_modules/pkg/services.json''),
      (''/app'', ''/app/services_test.json'')] \<and>
   fst (buildContainer nodeHost (newBuilder modulesFs modulesRequire) ''/app'' None)
      = (newBuilder modulesFs modulesRequire)\<lparr> options := defaultOptions \<rparr> \<and>
   map (\<lambda>d. (dir d, file' d))
     (findServiceJsonFiles defaultOptions
        [(''node_modules'', FsDir [(''pkg'', FsDir [(''services.json'', FsFile)])]),
         (''services_test.json'', FsFile)] ''/app'' LUndefined) = []"
proof -
  let ?b = "newBuilder modulesFs modulesRequire"
  let ?es = "[(''node_modules'', FsDir [(''pkg'', FsDir [(''services.json'', FsFile)])]),
              (''services_test.json'', FsFile)]"
  have root: "fs ?b ''/app'' = FsDir ?es"
    by (simp add: newBuilder_def modulesFs_def)
  have u1: "testEnvOptions = (case Some testEnvOptions of Some p \<Rightarrow> p | None \<Rightarrow> options ?b)"
    and u2: "defaultOptions = (case None of Some p \<Rightarrow> p | None \<Rightarrow> options ?b)"
    by (simp_all add: newBuilder_def)
  have p1: "plainEnv (env testEnvOptions)" and p2: "plainEnv (env defaultOptions)"
    by (simp_all add: testEnvOptions_def defaultOptions_def plainSource_def isMetacharacter_def)
  have f1: "\<not> flagTruthy (ignoreNodeModulesDirectory testEnvOptions)"
    and f2: "flagTruthy (ignoreNodeModulesDirectory defaultOptions)"
    by (simp_all add: testEnvOptions_def defaultOptions_def)
  note t1 = buildContainer_options_wholesale [OF root u1 p1, of nodeHost]
  note t2 = buildContainer_options_wholesale [OF root u2 p2, of nodeHost]
  have a: "fst (buildContainer nodeHost ?b ''/app'' (Some testEnvOptions))
             = ?b\<lparr> options := testEnvOptions \<rparr>"
    using t1 by (rule conjunct1)
  have c: "fst (buildContainer nodeHost ?b ''/app'' None) = ?b\<lparr> options := defaultOptions \<rparr>"
    using t2 by (rule conjunct1)
  from t1 f1 have "map (\<lambda>d. (dir d, file' d))
       (findServiceJsonFiles testEnvOptions ?es ''/app'' LUndefined) =
     filter (\<lambda>(d, f). matchesPattern testEnvOptions f) (treeFiles (\<lambda>q. True) ''/app'' ?es)"
    by blast
  also have "\<dots> = [(''/app/node_modules/pkg'', ''/app/node_modules/pkg/services.json''),
                     (''/app'', ''/app/services_test.json'')]"
    by (simp add: matchesPattern_def testEnvOptions_def regexSuffixTest_def atomMatches_def)
  finally have w: "map (\<lambda>d. (dir d, file' d))
       (findServiceJsonFiles testEnvOptions ?es ''/app'' LUndefined) =
     [(''/app/node_modules/pkg'', ''/app/node_modules/pkg/services.json''),
      (''/app'', ''/app/services_test.json'')]" .
  from t2 f2 have "map (\<lambda>d. (dir d, file' d))
       (findServiceJsonFiles defaultOptions ?es ''/app'' LUndefined) =
     filter (\<lambda>(d, f). matchesPattern defaultOptions f)
       (treeFiles (\<lambda>q. \<not> sublist ''node_modules'' q) ''/app'' ?es)"
    by blast
  also have "\<dots> = []"
    by (simp add: matchesPattern_def defaultOptions_def regexSuffixTest_def atomMatches_def
          sublist_code)
  finally have x: "map (\<lambda>d. (dir d, file' d))
       (findServiceJsonFiles defaultOptions ?es ''/app'' LUndefined) = []" .
  from a w c x show ?thesis by (intro conjI)
qed

text \<open>
  C4, at three service files of levels 0, 1 and 0. The comparator returns \<open>true\<close> or
  \<open>false\<close>, that is 1 or 0 and never a negative number: the array sort of Node 11 and
  later leaves the files in the order 0, 1, 0, which is sorted by depth in neither
  direction, where the insertion sort of the earlier engine gives 1, 0, 0. With the levels
  \<open>undefined\<close>, \<open>NaN\<close>, \<open>undefined\<close> that a build gives these files, the comparator
  is 0 on every pair and both sorts leave the order as it is.
\<close>

theorem sortFilesByHierarchy_not_depth_sorted:
  "sortFilesByHierarchy binaryInsertionSort
     [serviceFile (LNum 0) ''/app'' ''a_services.json'',
      serviceFile (LNum 1) ''/app/sub'' ''services.json'',
      serviceFile (LNum 0) ''/app'' ''z_services.json''] =
     [serviceFile (LNum 0) ''/app'' ''a_services.json'',
      serviceFile (LNum 1) ''/app/sub'' ''services.json'',
      serviceFile (LNum 0) ''/app'' ''z_services.json''] \<and>
   sortFilesByHierarchy legacyInsertionSort
     [serviceFile (LNum 0) ''/app'' ''a_services.json'',
      serviceFile (LNum 1) ''/app/sub'' ''services.json'',
      serviceFile (LNum 0) ''/app'' ''z_services.json''] =
     [serviceFile (LNum 1) ''/app/sub'' ''services.json'',
      serviceFile (LNum 0) ''/app'' ''a_services.json'',
      serviceFile (LNum 0) ''/app'' ''z_services.json''] \<and>
   sortFilesByHierarchy binaryInsertionSort
     [serviceFile LUndefined ''/app'' ''a_services.json'',
      serviceFile LNaN ''/app/sub'' ''services.json'',
      serviceFile LUndefined ''/app'' ''z_services.json''] =
     [serviceFile LUndefined ''/app'' ''a_services.json'',
      serviceFile LNaN ''/app/sub'' ''services.json'',
      serviceFile LUndefined ''/app'' ''z_services.json''] \<and>
   sortFilesByHierarchy legacyInsertionSort
     [serviceFile LUndefined ''/app'' ''a_services.json'',
      serviceFile LNaN ''/app/sub'' ''services.json'',
      serviceFile LUndefined ''/app'' ''z_services.json''] =
     [serviceFile LUndefined ''/app'' ''a_services.json'',
      serviceFile LNaN ''/app/sub'' ''services.json'',
      serviceFile LUndefined ''/app'' ''z_services.json'']"
  by (simp add: build_evals serviceFile_def)

text \<open>
  C1, at the root directory \<open>/app\<close> with \<open>services.json\<close> and
  \<open>sub/services.json\<close>, listed in this order, both defining the service \<open>svc\<close>. On
  both hosts the file of the root directory is resolved first and the deeper file second,
  and the container ends with the definition of the deeper file.
\<close>

theorem buildContainer_shallow_file_first:
  "buildCalls nodeHost (newBuilder layeredFs layeredRequire) ''/app'' =
     Inr ([Set ''svc'' (builtDefinition [(''class'', JStr ''Root'')] ''/app'' [] False),
           Set ''svc'' (builtDefinition [(''class'', JStr ''Sub'')] ''/app/sub'' [] False)], None) \<and>
   buildCalls legacyHost (newBuilder layeredFs layeredRequire) ''/app'' =
     Inr ([Set ''svc'' (builtDefinition [(''class'', JStr ''Root'')] ''/app'' [] False),
           Set ''svc'' (builtDefinition [(''class'', JStr ''Sub'')] ''/app/sub'' [] False)], None) \<and>
   snd (buildContainer nodeHost (newBuilder layeredFs layeredRequire) ''/app'' None) =
     Inr (runSink
           [Set ''svc'' (builtDefinition [(''class'', JStr ''Root'')] ''/app'' [] False),
            Set ''svc'' (builtDefinition [(''class'', JStr ''Sub'')] ''/app/sub'' [] False)]
           (makeEmptyContainer ''/app'')) \<and>
   containerDefinitions
     (runSink
        [Set ''svc'' (builtDefinition [(''class'', JStr ''Root'')] ''/app'' [] False),
         Set ''svc'' (builtDefinition [(''class'', JStr ''Sub'')] ''/app/sub'' [] False)]
        (makeEmptyContainer ''/app'')) ''svc'' =
     Some (builtDefinition [(''class'', JStr ''Sub'')] ''/app/sub'' [] False)"
  by (simp add: build_evals nodeHost_def legacyHost_def layeredFs_def layeredRequire_def)

end
